theory Spec2Isabelle
  imports Complex_Main
begin

section \<open>Configuration (convex/config.ts)\<close>

text \<open>
  The cost constants are JavaScript numbers holding USD amounts; they are modelled as
  reals. The counters of a scan are JavaScript numbers that only ever hold integers;
  they are modelled as \<open>int\<close>, so that \<open>MAX_IMAGES_PER_SCAN - imagesRequested\<close> may be
  negative, as in the source.
\<close>

record costs =
  VISION_PARSE :: real
  IMAGE_OPENAI :: real
  IMAGE_NANO_BANANA :: real

record config =
  AUTO_IMAGE_LIMIT :: int
  MAX_IMAGES_PER_SCAN :: int
  DEFAULT_IMAGE_PROVIDER :: string
  COSTS :: costs

definition CONFIG :: config where
  "CONFIG = \<lparr>AUTO_IMAGE_LIMIT = 0, MAX_IMAGES_PER_SCAN = 50,
     DEFAULT_IMAGE_PROVIDER = ''openai'',
     COSTS = \<lparr>VISION_PARSE = 1 / 100, IMAGE_OPENAI = 2 / 100, IMAGE_NANO_BANANA = 2 / 100\<rparr>\<rparr>"

definition isValidProvider :: "string \<Rightarrow> bool" where
  "isValidProvider provider \<longleftrightarrow> provider = ''openai'' \<or> provider = ''nano_banana''"

text \<open>
  \<open>args.imageProvider && isValidProvider(args.imageProvider) ? args.imageProvider
  : CONFIG.DEFAULT_IMAGE_PROVIDER\<close>, the first statement of the three public actions.
  An absent argument and the empty string are both falsy.
\<close>

definition chooseProvider :: "config \<Rightarrow> string option \<Rightarrow> string" where
  "chooseProvider cfg imageProvider =
     (case imageProvider of
        None \<Rightarrow> DEFAULT_IMAGE_PROVIDER cfg
      | Some p \<Rightarrow> if p \<noteq> [] \<and> isValidProvider p then p else DEFAULT_IMAGE_PROVIDER cfg)"

section \<open>Data model (convex/schema.ts)\<close>

datatype scan_status =
  Pending | Uploading | Processing | Extracting | Generating | Completed | Failed

datatype image_status =
  IPending | IQueued | IGenerating | ICompleted | IFailed | ISkipped

text \<open>
  Document ids are natural numbers. Fields that the two tables share by name carry the
  prefix \<open>dish_\<close> in the dish record; \<open>dish_id\<close> is the document's \<open>_id\<close>.
\<close>

record scan =
  deviceId :: string
  imageStorageId :: "nat option"
  imageUrl :: "string option"
  restaurantName :: "string option"
  status :: scan_status
  statusMessage :: "string option"
  totalDishes :: int
  dishesExtracted :: int
  imagesGenerated :: int
  imagesRequested :: int
  estimatedCostUsd :: real
  actualCostUsd :: real
  createdAt :: nat
  completedAt :: "nat option"
  errorMessage :: "string option"

record dish =
  dish_id :: nat
  scanId :: nat
  name :: string
  description :: "string option"
  price :: "string option"
  sectionName :: "string option"
  displayOrder :: int
  imageStatus :: image_status
  dish_imageStorageId :: "nat option"
  dish_imageUrl :: "string option"
  imageProvider :: "string option"
  imageCostUsd :: "real option"
  imageError :: "string option"
  dish_createdAt :: nat
  imageGeneratedAt :: "nat option"

record deviceUser =
  createdAtUser :: nat
  lastSeenAt :: nat
  scanCount :: int

text \<open>
  The database: the scans by id, the device users by \<open>deviceId\<close> (the index
  \<open>by_deviceId\<close>), and the dishes as the list of rows in creation order, which is
  the order in which the index \<open>by_scanId\<close> returns the dishes of one scan.
  \<open>nextId\<close> is the next fresh document id and \<open>now\<close> the value \<open>Date.now()\<close>
  returns.
\<close>

record store =
  menuScans :: "nat \<rightharpoonup> scan"
  deviceUsers :: "string \<rightharpoonup> deviceUser"
  dishes :: "dish list"
  nextId :: nat
  now :: nat

section \<open>Errors\<close>

text \<open>
  A thrown value is an \<open>Error\<close> object with its message or some other value;
  \<open>error_message\<close> is \<open>error instanceof Error ? error.message : "Unknown error"\<close>.
  The database throws when a document to patch does not exist; the text of that
  message is not in the source and \<open>db_missing\<close> stands for it.
\<close>

datatype js_error = Error string | Thrown_other

definition error_message :: "js_error \<Rightarrow> string" where
  "error_message e = (case e of Error m \<Rightarrow> m | Thrown_other \<Rightarrow> ''Unknown error'')"

definition db_missing :: js_error where
  "db_missing = Error ''Update on nonexistent document''"

section \<open>Database primitives\<close>

definition db_get_dish :: "store \<Rightarrow> nat \<Rightarrow> dish option" where
  "db_get_dish st i = find (\<lambda>d. dish_id d = i) (dishes st)"

definition patch_scan :: "store \<Rightarrow> nat \<Rightarrow> (scan \<Rightarrow> scan) \<Rightarrow> js_error + store" where
  "patch_scan st i f =
     (case menuScans st i of
        None \<Rightarrow> Inl db_missing
      | Some s \<Rightarrow> Inr (st\<lparr>menuScans := (menuScans st)(i \<mapsto> f s)\<rparr>))"

definition patch_dish :: "store \<Rightarrow> nat \<Rightarrow> (dish \<Rightarrow> dish) \<Rightarrow> js_error + store" where
  "patch_dish st i f =
     (case db_get_dish st i of
        None \<Rightarrow> Inl db_missing
      | Some _ \<Rightarrow>
          Inr (st\<lparr>dishes := map (\<lambda>d. if dish_id d = i then f d else d) (dishes st)\<rparr>))"

text \<open>\<open>.withIndex("by_scanId", q => q.eq("scanId", scanId)).collect()\<close>\<close>

definition by_scanId :: "store \<Rightarrow> nat \<Rightarrow> dish list" where
  "by_scanId st sid = filter (\<lambda>d. scanId d = sid) (dishes st)"

text \<open>
  \<open>.withIndex("by_scanId_order", ...)\<close>: the same dishes ordered by \<open>displayOrder\<close>,
  dishes of equal \<open>displayOrder\<close> in creation order (\<open>sort_key\<close> is stable).
\<close>

definition by_scanId_order :: "store \<Rightarrow> nat \<Rightarrow> dish list" where
  "by_scanId_order st sid = sort_key displayOrder (by_scanId st sid)"

section \<open>Number formatting\<close>

text \<open>Template literals print an integer-valued number in decimal.\<close>

fun show_nat :: "nat \<Rightarrow> string" where
  "show_nat n =
     (if n < 10 then [''0123456789'' ! n]
      else show_nat (n div 10) @ [''0123456789'' ! (n mod 10)])"

declare show_nat.simps [simp del]

definition show_int :: "int \<Rightarrow> string" where
  "show_int i = (if i < 0 then CHR ''-'' # show_nat (nat (- i)) else show_nat (nat i))"

section \<open>Queries (convex/queries.ts)\<close>

text \<open>The \<open>switch\<close> on the status in \<open>getScan\<close> and \<open>getScanWithDishes\<close>.\<close>

definition progress_of :: "scan \<Rightarrow> real" where
  "progress_of s =
     (case status s of
        Pending \<Rightarrow> 0
      | Uploading \<Rightarrow> 10
      | Processing \<Rightarrow> 25
      | Extracting \<Rightarrow> 50
      | Generating \<Rightarrow>
          (let imageProgress =
             (if imagesRequested s > 0
              then (real_of_int (imagesGenerated s) / real_of_int (imagesRequested s)) * 40
              else 0)
           in 60 + imageProgress)
      | Completed \<Rightarrow> 100
      | Failed \<Rightarrow> 0)"

definition getScan :: "store \<Rightarrow> nat \<Rightarrow> (scan \<times> real) option" where
  "getScan st sid =
     (case menuScans st sid of
        None \<Rightarrow> None
      | Some s \<Rightarrow> Some (s, progress_of s))"

definition getDishesForScan :: "store \<Rightarrow> nat \<Rightarrow> dish list" where
  "getDishesForScan st sid = by_scanId_order st sid"

text \<open>
  \<open>getScanWithDishes\<close> groups the dishes in the object \<open>sections\<close>, which starts as the
  literal \<open>{}\<close>. The test \<open>!sections[dish.sectionName]\<close> reads own and inherited
  properties: for a name that the literal inherits from \<open>Object.prototype\<close> it finds
  the inherited value, which is truthy and no array, so no array is stored under that
  name and the call of \<open>push\<close> that follows throws a \<open>TypeError\<close>.
  \<open>object_prototype_keys\<close> lists the inherited names; they are the language's and not
  in the source, and so is the text of the message, for which \<open>push_not_function\<close>
  stands.
\<close>

definition object_prototype_keys :: "string list" where
  "object_prototype_keys =
     [''constructor'', ''__defineGetter__'', ''__defineSetter__'', ''hasOwnProperty'',
      ''__lookupGetter__'', ''__lookupSetter__'', ''isPrototypeOf'',
      ''propertyIsEnumerable'', ''toString'', ''valueOf'', ''__proto__'',
      ''toLocaleString'']"

definition push_not_function :: js_error where
  "push_not_function = Error ''sections[dish.sectionName].push is not a function''"

text \<open>
  The loop over the dishes of the scan. An empty section name is falsy, and such a
  dish goes to \<open>noSection\<close>. \<open>acc\<close> holds the own properties of \<open>sections\<close>.
\<close>

fun group_sections ::
  "dish list \<Rightarrow> (string \<rightharpoonup> dish list) \<Rightarrow> js_error + (string \<rightharpoonup> dish list)" where
  "group_sections [] acc = Inr acc"
| "group_sections (d # ds) acc =
     (case sectionName d of
        None \<Rightarrow> group_sections ds acc
      | Some sn \<Rightarrow>
          if sn = [] then group_sections ds acc
          else
            (case acc sn of
               Some xs \<Rightarrow> group_sections ds (acc(sn \<mapsto> xs @ [d]))
             | None \<Rightarrow>
                 if sn \<in> set object_prototype_keys then Inl push_not_function
                 else group_sections ds (acc(sn \<mapsto> [d]))))"

text \<open>The truthy section names of the dishes, in the order of the dishes.\<close>

definition section_keys :: "dish list \<Rightarrow> string list" where
  "section_keys ds = filter (\<lambda>sn. sn \<noteq> []) (List.map_filter sectionName ds)"

text \<open>
  \<open>getScanWithDishes\<close> returns \<open>null\<close> for a scan that does not exist, and otherwise
  the scan with its progress, the dishes, the object \<open>sections\<close> and the dishes
  without a section name. The section names are the field names of the object
  \<open>sections\<close>; the Convex runtime serialises what a query returns and refuses an
  object with a field name that it does not accept. That check is the library's and
  not in the source: \<open>validField\<close> is the parameter for it, and \<open>field_rejected\<close>
  stands for the error it throws. The other objects that the queries return have
  the field names of the schema and \<open>progress\<close>.
\<close>

definition field_rejected :: js_error where
  "field_rejected = Error ''Field name is not a valid field name''"

definition getScanWithDishes ::
  "(string \<Rightarrow> bool) \<Rightarrow> store \<Rightarrow> nat \<Rightarrow>
     js_error + ((scan \<times> real) \<times> dish list \<times> (string \<rightharpoonup> dish list) \<times> dish list) option" where
  "getScanWithDishes validField st sid =
     (case menuScans st sid of
        None \<Rightarrow> Inr None
      | Some s \<Rightarrow>
          (let ds = by_scanId_order st sid
           in case group_sections ds Map.empty of
                Inl e \<Rightarrow> Inl e
              | Inr secs \<Rightarrow>
                  if list_all validField (section_keys ds)
                  then Inr (Some ((s, progress_of s), ds, secs,
                         filter (\<lambda>d. sectionName d = None \<or> sectionName d = Some []) ds))
                  else Inl field_rejected))"

section \<open>Mutations (convex/mutations.ts)\<close>



text \<open>
  The object \<open>updates\<close> that \<open>updateScanStatus\<close> builds, as the change it makes to the
  scan; \<open>t\<close> is \<open>Date.now()\<close>.
\<close>

definition scanStatus_updates ::
  "nat \<Rightarrow> scan_status \<Rightarrow> string option \<Rightarrow> string option \<Rightarrow> scan \<Rightarrow> scan" where
  "scanStatus_updates t newStatus statusMsg errorMsg s =
     (let u1 = s\<lparr>status := newStatus\<rparr>;
          u2 = (case statusMsg of None \<Rightarrow> u1 | Some m \<Rightarrow> u1\<lparr>statusMessage := Some m\<rparr>);
          u3 = (case errorMsg of None \<Rightarrow> u2 | Some m \<Rightarrow> u2\<lparr>errorMessage := Some m\<rparr>)
      in if newStatus = Completed then u3\<lparr>completedAt := Some t\<rparr> else u3)"

definition updateScanStatus ::
  "nat \<Rightarrow> scan_status \<Rightarrow> string option \<Rightarrow> string option \<Rightarrow> store \<Rightarrow> js_error + (store \<times> unit)" where
  "updateScanStatus sid newStatus statusMsg errorMsg st =
     (case patch_scan st sid (scanStatus_updates (now st) newStatus statusMsg errorMsg) of
        Inl e \<Rightarrow> Inl e
      | Inr st' \<Rightarrow> Inr (st', ()))"

text \<open>
  The optional arguments of \<open>updateScanProgress\<close>, in the order of the source:
  \<open>totalDishes\<close>, \<open>dishesExtracted\<close>, \<open>imagesGenerated\<close>, \<open>imagesRequested\<close>,
  \<open>restaurantName\<close>, \<open>addActualCost\<close>, \<open>addEstimatedCost\<close>. The two costs are
  added only when truthy, that is when present and not zero, and to the cost of the
  scan as the mutation read it. \<open>scanProgress_updates\<close> is the object \<open>updates\<close> as
  the change it makes to the scan.
\<close>

definition scanProgress_updates ::
  "scan \<Rightarrow> int option \<Rightarrow> int option \<Rightarrow> int option \<Rightarrow> int option \<Rightarrow> string option \<Rightarrow>
   real option \<Rightarrow> real option \<Rightarrow> scan \<Rightarrow> scan" where
  "scanProgress_updates scan aTotalDishes aDishesExtracted aImagesGenerated aImagesRequested
     aRestaurantName addActualCost addEstimatedCost s =
     (let u1 = (case aTotalDishes of None \<Rightarrow> s | Some v \<Rightarrow> s\<lparr>totalDishes := v\<rparr>);
          u2 = (case aDishesExtracted of None \<Rightarrow> u1 | Some v \<Rightarrow> u1\<lparr>dishesExtracted := v\<rparr>);
          u3 = (case aImagesGenerated of None \<Rightarrow> u2 | Some v \<Rightarrow> u2\<lparr>imagesGenerated := v\<rparr>);
          u4 = (case aImagesRequested of None \<Rightarrow> u3 | Some v \<Rightarrow> u3\<lparr>imagesRequested := v\<rparr>);
          u5 = (case aRestaurantName of None \<Rightarrow> u4 | Some v \<Rightarrow> u4\<lparr>restaurantName := Some v\<rparr>);
          u6 = (case addActualCost of
                  None \<Rightarrow> u5
                | Some c \<Rightarrow> if c \<noteq> 0 then u5\<lparr>actualCostUsd := actualCostUsd scan + c\<rparr> else u5)
      in (case addEstimatedCost of
            None \<Rightarrow> u6
          | Some c \<Rightarrow> if c \<noteq> 0 then u6\<lparr>estimatedCostUsd := estimatedCostUsd scan + c\<rparr> else u6))"

definition updateScanProgress ::
  "nat \<Rightarrow> int option \<Rightarrow> int option \<Rightarrow> int option \<Rightarrow> int option \<Rightarrow> string option \<Rightarrow>
   real option \<Rightarrow> real option \<Rightarrow> store \<Rightarrow> js_error + (store \<times> unit)" where
  "updateScanProgress sid aTotalDishes aDishesExtracted aImagesGenerated aImagesRequested
     aRestaurantName addActualCost addEstimatedCost st =
     (case menuScans st sid of
        None \<Rightarrow> Inl (Error ''Scan not found'')
      | Some scan \<Rightarrow>
          (case patch_scan st sid
                  (scanProgress_updates scan aTotalDishes aDishesExtracted aImagesGenerated
                     aImagesRequested aRestaurantName addActualCost addEstimatedCost) of
             Inl e \<Rightarrow> Inl e
           | Inr st' \<Rightarrow> Inr (st', ())))"

text \<open>
  \<open>createDish\<close> accepts only the image statuses \<open>pending\<close>, \<open>queued\<close> and \<open>skipped\<close>
  (its argument validator); the text of the validator's error is not in the source.
\<close>

definition createDish ::
  "nat \<Rightarrow> string \<Rightarrow> string option \<Rightarrow> string option \<Rightarrow> string option \<Rightarrow> int \<Rightarrow> image_status \<Rightarrow>
   store \<Rightarrow> js_error + (store \<times> nat)" where
  "createDish sid aName aDescription aPrice aSectionName aDisplayOrder aImageStatus st =
     (if aImageStatus \<notin> {IPending, IQueued, ISkipped}
      then Inl (Error ''ArgumentValidationError'')
      else Inr (st\<lparr>dishes := dishes st @
                   [\<lparr>dish_id = nextId st, scanId = sid, name = aName,
                     description = aDescription, price = aPrice,
                     sectionName = aSectionName, displayOrder = aDisplayOrder,
                     imageStatus = aImageStatus, dish_imageStorageId = None,
                     dish_imageUrl = None, imageProvider = None, imageCostUsd = None,
                     imageError = None, dish_createdAt = now st,
                     imageGeneratedAt = None\<rparr>],
                 nextId := Suc (nextId st)\<rparr>, nextId st))"

text \<open>
  The optional arguments of \<open>updateDishImage\<close>, in the order of the source:
  \<open>imageStorageId\<close>, \<open>imageUrl\<close>, \<open>imageProvider\<close>, \<open>imageCostUsd\<close>, \<open>imageError\<close>.
  \<open>dishImage_updates\<close> is the object \<open>updates\<close> as the change it makes to the dish.
\<close>

definition dishImage_updates ::
  "nat \<Rightarrow> image_status \<Rightarrow> nat option \<Rightarrow> string option \<Rightarrow> string option \<Rightarrow> real option \<Rightarrow>
   string option \<Rightarrow> dish \<Rightarrow> dish" where
  "dishImage_updates t aImageStatus aStorageId aImageUrl aProvider aCost aError d =
     (let u1 = d\<lparr>imageStatus := aImageStatus\<rparr>;
          u2 = (case aStorageId of None \<Rightarrow> u1 | Some v \<Rightarrow> u1\<lparr>dish_imageStorageId := Some v\<rparr>);
          u3 = (case aImageUrl of None \<Rightarrow> u2 | Some v \<Rightarrow> u2\<lparr>dish_imageUrl := Some v\<rparr>);
          u4 = (case aProvider of None \<Rightarrow> u3 | Some v \<Rightarrow> u3\<lparr>imageProvider := Some v\<rparr>);
          u5 = (case aCost of None \<Rightarrow> u4 | Some v \<Rightarrow> u4\<lparr>imageCostUsd := Some v\<rparr>);
          u6 = (case aError of None \<Rightarrow> u5 | Some v \<Rightarrow> u5\<lparr>imageError := Some v\<rparr>)
      in if aImageStatus = ICompleted then u6\<lparr>imageGeneratedAt := Some t\<rparr> else u6)"

definition updateDishImage ::
  "nat \<Rightarrow> image_status \<Rightarrow> nat option \<Rightarrow> string option \<Rightarrow> string option \<Rightarrow> real option \<Rightarrow>
   string option \<Rightarrow> store \<Rightarrow> js_error + (store \<times> unit)" where
  "updateDishImage did aImageStatus aStorageId aImageUrl aProvider aCost aError st =
     (case patch_dish st did
             (dishImage_updates (now st) aImageStatus aStorageId aImageUrl aProvider aCost aError) of
        Inl e \<Rightarrow> Inl e
      | Inr st' \<Rightarrow> Inr (st', ()))"

text \<open>
  \<open>xs.slice(0, e)\<close>: a negative end counts from the end of the array.
\<close>

definition slice0 :: "'a list \<Rightarrow> int \<Rightarrow> 'a list" where
  "slice0 xs e = (if e < 0 then take (length xs - nat (- e)) xs else take (nat e) xs)"

record queue_result =
  qr_queued :: int
  qr_dishIds :: "nat list option"
  qr_message :: string

text \<open>
  The loop \<open>for (let i = 0; i < toQueue; i++)\<close> of \<open>queueRemainingImages\<close>. Since
  \<open>toQueue \<le> pendingDishes.length\<close>, it visits the first \<open>toQueue\<close> elements of
  \<open>pendingDishes\<close> (none when \<open>toQueue\<close> is negative), which are passed as the list.
\<close>

fun queue_loop :: "store \<Rightarrow> dish list \<Rightarrow> int \<Rightarrow> js_error + (store \<times> int)" where
  "queue_loop st [] queued = Inr (st, queued)"
| "queue_loop st (d # ds) queued =
     (case patch_dish st (dish_id d) (\<lambda>x. x\<lparr>imageStatus := IQueued\<rparr>) of
        Inl e \<Rightarrow> Inl e
      | Inr st' \<Rightarrow> queue_loop st' ds (queued + 1))"

definition queueRemainingImages :: "config \<Rightarrow> nat \<Rightarrow> store \<Rightarrow> js_error + (store \<times> queue_result)" where
  "queueRemainingImages cfg sid st =
     (case menuScans st sid of
        None \<Rightarrow> Inl (Error ''Scan not found'')
      | Some scan \<Rightarrow>
          (let ds = by_scanId st sid;
               pendingDishes = filter (\<lambda>d. imageStatus d = IPending \<or> imageStatus d = ISkipped) ds;
               alreadyRequested = imagesRequested scan;
               remainingSlots = MAX_IMAGES_PER_SCAN cfg - alreadyRequested;
               toQueue = min (int (length pendingDishes)) remainingSlots
           in if toQueue = 0
              then Inr (st, \<lparr>qr_queued = 0, qr_dishIds = None,
                             qr_message = ''Max images per scan reached''\<rparr>)
              else
                (case queue_loop st (take (nat toQueue) pendingDishes) 0 of
                   Inl e \<Rightarrow> Inl e
                 | Inr (st1, queued) \<Rightarrow>
                     (let newImagesRequested = alreadyRequested + queued;
                          estimatedCost = real_of_int queued * IMAGE_OPENAI (COSTS cfg)
                      in (case patch_scan st1 sid
                                 (\<lambda>s. s\<lparr>imagesRequested := newImagesRequested,
                                         estimatedCostUsd := estimatedCostUsd scan + estimatedCost,
                                         status := Generating\<rparr>) of
                            Inl e \<Rightarrow> Inl e
                          | Inr st2 \<Rightarrow>
                              Inr (st2, \<lparr>qr_queued = queued,
                                     qr_dishIds = Some (map dish_id (slice0 pendingDishes toQueue)),
                                     qr_message = ''Queued '' @ show_int queued @
                                        '' images for generation''\<rparr>))))))"

text \<open>The loop of \<open>forceCompleteScan\<close>, with the counter \<open>completedImages\<close>.\<close>

fun force_loop :: "store \<Rightarrow> dish list \<Rightarrow> int \<Rightarrow> js_error + (store \<times> int)" where
  "force_loop st [] completedImages = Inr (st, completedImages)"
| "force_loop st (d # ds) completedImages =
     (if imageStatus d = ICompleted then force_loop st ds (completedImages + 1)
      else if imageStatus d = IQueued \<or> imageStatus d = IGenerating
      then (case patch_dish st (dish_id d) (\<lambda>x. x\<lparr>imageStatus := ISkipped\<rparr>) of
              Inl e \<Rightarrow> Inl e
            | Inr st' \<Rightarrow> force_loop st' ds completedImages)
      else force_loop st ds completedImages)"

definition forceCompleteScan :: "nat \<Rightarrow> store \<Rightarrow> js_error + (store \<times> int \<times> int)" where
  "forceCompleteScan sid st =
     (case menuScans st sid of
        None \<Rightarrow> Inl (Error ''Scan not found'')
      | Some scan \<Rightarrow>
          (let ds = by_scanId st sid
           in (case force_loop st ds 0 of
                 Inl e \<Rightarrow> Inl e
               | Inr (st1, completedImages) \<Rightarrow>
                   (case patch_scan st1 sid
                           (\<lambda>s. s\<lparr>status := Completed, imagesGenerated := completedImages,
                                   statusMessage := Some (''Completed with '' @
                                      show_int completedImages @ '' images''),
                                   completedAt := Some (now st)\<rparr>) of
                      Inl e \<Rightarrow> Inl e
                    | Inr st2 \<Rightarrow> Inr (st2, completedImages, int (length ds))))))"

text \<open>The loop of \<open>stopImageGeneration\<close>, with the counters \<open>skipped\<close> and \<open>completed\<close>.\<close>

fun stop_loop :: "store \<Rightarrow> dish list \<Rightarrow> int \<Rightarrow> int \<Rightarrow> js_error + (store \<times> int \<times> int)" where
  "stop_loop st [] skipped completed = Inr (st, skipped, completed)"
| "stop_loop st (d # ds) skipped completed =
     (if imageStatus d = IQueued
      then (case patch_dish st (dish_id d) (\<lambda>x. x\<lparr>imageStatus := ISkipped\<rparr>) of
              Inl e \<Rightarrow> Inl e
            | Inr st' \<Rightarrow> stop_loop st' ds (skipped + 1) completed)
      else if imageStatus d = ICompleted then stop_loop st ds skipped (completed + 1)
      else stop_loop st ds skipped completed)"

text \<open>\<open>stopImageGeneration\<close> returns \<open>{ completed, skipped }\<close>, here as a pair.\<close>

definition stopImageGeneration :: "nat \<Rightarrow> store \<Rightarrow> js_error + (store \<times> int \<times> int)" where
  "stopImageGeneration sid st =
     (case menuScans st sid of
        None \<Rightarrow> Inl (Error ''Scan not found'')
      | Some scan \<Rightarrow>
          (let ds = by_scanId st sid
           in (case stop_loop st ds 0 0 of
                 Inl e \<Rightarrow> Inl e
               | Inr (st1, skipped, completed) \<Rightarrow>
                   (case patch_scan st1 sid
                           (\<lambda>s. s\<lparr>status := Completed, imagesGenerated := completed,
                                   statusMessage := Some (''Stopped - '' @ show_int completed @
                                      '' images completed, '' @ show_int skipped @ '' skipped''),
                                   completedAt := Some (now st)\<rparr>) of
                      Inl e \<Rightarrow> Inl e
                    | Inr st2 \<Rightarrow> Inr (st2, completed, skipped)))))"

text \<open>
  The result of \<open>queueSingleDishImage\<close>: \<open>{ queued: false, message }\<close> or
  \<open>{ queued: true, dishId, scanId }\<close>.
\<close>

datatype single_result = Single_not_queued string | Single_queued nat nat

definition queueSingleDishImage :: "config \<Rightarrow> nat \<Rightarrow> store \<Rightarrow> js_error + (store \<times> single_result)" where
  "queueSingleDishImage cfg did st =
     (case db_get_dish st did of
        None \<Rightarrow> Inl (Error ''Dish not found'')
      | Some dish \<Rightarrow>
          if imageStatus dish = ICompleted \<or> imageStatus dish = IGenerating \<or>
             imageStatus dish = IQueued
          then Inr (st, Single_not_queued ''Image already generated or in progress'')
          else
            (case menuScans st (scanId dish) of
               None \<Rightarrow> Inl (Error ''Scan not found'')
             | Some scan \<Rightarrow>
                 if imagesRequested scan \<ge> MAX_IMAGES_PER_SCAN cfg
                 then Inr (st, Single_not_queued ''Maximum images per scan reached'')
                 else
                   (case patch_dish st did (\<lambda>x. x\<lparr>imageStatus := IQueued\<rparr>) of
                      Inl e \<Rightarrow> Inl e
                    | Inr st1 \<Rightarrow>
                        (case patch_scan st1 (scanId dish)
                                (\<lambda>s. s\<lparr>imagesRequested := imagesRequested scan + 1,
                                        estimatedCostUsd := estimatedCostUsd scan +
                                           IMAGE_OPENAI (COSTS cfg),
                                        status := (if status scan = Completed then Generating
                                                   else status scan)\<rparr>) of
                           Inl e \<Rightarrow> Inl e
                         | Inr st2 \<Rightarrow> Inr (st2, Single_queued did (scanId dish))))))"

section \<open>Actions (convex/actions.ts)\<close>

text \<open>
  An action is not a transaction: it runs queries and mutations one after the other,
  each mutation committing on its own, schedules further actions and calls the
  external providers. Its context holds the database, the jobs handed to the
  scheduler and two logs kept for the statements below: \<open>committed\<close>, the
  database as each successful mutation left it (oldest first), which are the states a
  reader of the database can observe, and \<open>imageCalls\<close>, the calls of the provider
  functions \<open>callOpenAIImageAPI\<close> and \<open>callNanoBananaAPI\<close> (provider, dish name,
  description put in the prompt).
\<close>

datatype job = Job_processScanPipeline nat string | Job_generateDishImage nat nat string

record ctx =
  db :: store
  scheduled :: "job list"
  committed :: "store list"
  imageCalls :: "(string \<times> string \<times> string) list"

type_synonym 'a action = "ctx \<Rightarrow> ctx \<times> (js_error + 'a)"

definition returnA :: "'a \<Rightarrow> 'a action" where
  "returnA x c = (c, Inr x)"

definition throwA :: "js_error \<Rightarrow> 'a action" where
  "throwA e c = (c, Inl e)"

definition bindA :: "'a action \<Rightarrow> ('a \<Rightarrow> 'b action) \<Rightarrow> 'b action" where
  "bindA m f c = (case m c of (c', Inl e) \<Rightarrow> (c', Inl e) | (c', Inr x) \<Rightarrow> f x c')"

definition tryCatch :: "'a action \<Rightarrow> (js_error \<Rightarrow> 'a action) \<Rightarrow> 'a action" where
  "tryCatch body handler c =
     (case body c of (c', Inl e) \<Rightarrow> handler e c' | (c', Inr x) \<Rightarrow> (c', Inr x))"

definition runMutation :: "(store \<Rightarrow> js_error + (store \<times> 'a)) \<Rightarrow> 'a action" where
  "runMutation m c =
     (case m (db c) of
        Inl e \<Rightarrow> (c, Inl e)
      | Inr (st', r) \<Rightarrow> (c\<lparr>db := st', committed := committed c @ [st']\<rparr>, Inr r))"

definition runAfter :: "job \<Rightarrow> unit action" where
  "runAfter j c = (c\<lparr>scheduled := scheduled c @ [j]\<rparr>, Inr ())"

definition startProcessingScan :: "config \<Rightarrow> nat \<Rightarrow> string option \<Rightarrow> (bool \<times> string) action" where
  "startProcessingScan cfg sid providerArg =
     (let provider = chooseProvider cfg providerArg
      in bindA (runMutation (updateScanStatus sid Processing (Some ''Analyzing menu image...'') None))
           (\<lambda>_. bindA (runAfter (Job_processScanPipeline sid provider))
           (\<lambda>_. returnA (True, ''Processing started''))))"

subsection \<open>The pipeline\<close>

record MenuItem =
  item_name :: string
  item_description :: "string option"
  item_price :: "string option"

record MenuSection =
  section_name :: string
  items :: "MenuItem list"

record VisionMenuOutput =
  vm_restaurantName :: "string option"
  sections :: "MenuSection list"
  itemsFallback :: "MenuItem list option"

text \<open>
  The inner loop over the items of one section (or over the fallback items, with no
  section name), with the variables \<open>displayOrder\<close> and \<open>dishIds\<close> of the action.
\<close>

fun create_items ::
  "config \<Rightarrow> nat \<Rightarrow> string option \<Rightarrow> MenuItem list \<Rightarrow> int \<times> nat list \<Rightarrow> (int \<times> nat list) action" where
  "create_items cfg sid sec [] (nextOrder, dishIds) c = (c, Inr (nextOrder, dishIds))"
| "create_items cfg sid sec (item # rest) (nextOrder, dishIds) c =
     (let shouldAutoGenerate = nextOrder < AUTO_IMAGE_LIMIT cfg
      in (case runMutation (createDish sid (item_name item) (item_description item)
                   (item_price item) sec nextOrder
                   (if shouldAutoGenerate then IQueued else IPending)) c of
            (c', Inl e) \<Rightarrow> (c', Inl e)
          | (c', Inr dishId) \<Rightarrow>
              create_items cfg sid sec rest
                (nextOrder + 1, if shouldAutoGenerate then dishIds @ [dishId] else dishIds) c'))"

fun create_sections ::
  "config \<Rightarrow> nat \<Rightarrow> MenuSection list \<Rightarrow> int \<times> nat list \<Rightarrow> (int \<times> nat list) action" where
  "create_sections cfg sid [] acc c = (c, Inr acc)"
| "create_sections cfg sid (section # rest) acc c =
     (case create_items cfg sid (Some (section_name section)) (items section) acc c of
        (c', Inl e) \<Rightarrow> (c', Inl e)
      | (c', Inr acc') \<Rightarrow> create_sections cfg sid rest acc' c')"

fun schedule_images :: "nat list \<Rightarrow> nat \<Rightarrow> string \<Rightarrow> unit action" where
  "schedule_images [] sid provider c = (c, Inr ())"
| "schedule_images (dishId # rest) sid provider c =
     (case runAfter (Job_generateDishImage dishId sid provider) c of
        (c', Inl e) \<Rightarrow> (c', Inl e)
      | (c', Inr _) \<Rightarrow> schedule_images rest sid provider c')"

definition count_dishes :: "VisionMenuOutput \<Rightarrow> int" where
  "count_dishes menuData =
     (let total = foldl (\<lambda>t section. t + int (length (items section))) 0 (sections menuData)
      in (case itemsFallback menuData of
            None \<Rightarrow> total
          | Some fb \<Rightarrow> total + int (length fb)))"

text \<open>
  The body of the \<open>try\<close> block: the check of the scan and of its image URL, and the
  steps that follow it. \<open>callVisionAPI\<close> is the outcome of the call of the vision
  provider on the image URL: the parsed menu or the error thrown.
\<close>

definition processScanPipeline_steps ::
  "config \<Rightarrow> (string \<Rightarrow> js_error + VisionMenuOutput) \<Rightarrow> nat \<Rightarrow> string \<Rightarrow> string \<Rightarrow> unit action" where
  "processScanPipeline_steps cfg callVisionAPI sid providerArg url =
     bindA (runMutation (updateScanStatus sid Processing
              (Some ''Extracting menu items with AI...'') None))
     (\<lambda>_. case callVisionAPI url of
         Inl e \<Rightarrow> throwA e
       | Inr menuData \<Rightarrow>
     bindA (runMutation (updateScanStatus sid Extracting
              (Some ''Creating dish records...'') None))
     (\<lambda>_. let total = count_dishes menuData in
     bindA (runMutation (updateScanProgress sid (Some total) None None None
              (vm_restaurantName menuData) (Some (VISION_PARSE (COSTS cfg))) None))
     (\<lambda>_. bindA (create_sections cfg sid (sections menuData) (0, []))
     (\<lambda>acc. bindA (case itemsFallback menuData of
                      None \<Rightarrow> returnA acc
                    | Some fb \<Rightarrow> create_items cfg sid None fb acc)
     (\<lambda>(nextOrder, dishIds).
        let imagesRequested' = min total (AUTO_IMAGE_LIMIT cfg);
            estimatedImageCost = real_of_int imagesRequested' *
              (if providerArg = ''openai'' then IMAGE_OPENAI (COSTS cfg)
               else IMAGE_NANO_BANANA (COSTS cfg)) in
     bindA (runMutation (updateScanProgress sid None (Some total) None
              (Some imagesRequested') None None (Some estimatedImageCost)))
     (\<lambda>_. bindA (runMutation (updateScanStatus sid Generating
              (Some (''Generating images for '' @ show_int imagesRequested' @
                 '' dishes...'')) None))
     (\<lambda>_. bindA (schedule_images dishIds sid providerArg)
     (\<lambda>_. if length dishIds = 0
           then runMutation (updateScanStatus sid Completed
                  (Some ''Menu processed successfully!'') None)
           else returnA ()))))))))"

definition processScanPipeline_try ::
  "config \<Rightarrow> (string \<Rightarrow> js_error + VisionMenuOutput) \<Rightarrow> nat \<Rightarrow> string \<Rightarrow> unit action" where
  "processScanPipeline_try cfg callVisionAPI sid providerArg c =
     (case getScan (db c) sid of
        None \<Rightarrow> throwA (Error ''Scan or image not found'') c
      | Some (scan, _) \<Rightarrow>
          if imageUrl scan = None \<or> imageUrl scan = Some []
          then throwA (Error ''Scan or image not found'') c
          else processScanPipeline_steps cfg callVisionAPI sid providerArg
                 (the (imageUrl scan)) c)"

definition processScanPipeline ::
  "config \<Rightarrow> (string \<Rightarrow> js_error + VisionMenuOutput) \<Rightarrow> nat \<Rightarrow> string \<Rightarrow> unit action" where
  "processScanPipeline cfg callVisionAPI sid providerArg =
     tryCatch (processScanPipeline_try cfg callVisionAPI sid providerArg)
       (\<lambda>error. runMutation (updateScanStatus sid Failed None (Some (error_message error))))"

subsection \<open>The image worker\<close>

text \<open>
  What the outside world answers to one run of the worker: \<open>image_api\<close> is the outcome
  of the provider's call (the URL of the generated image, or the error thrown, a
  missing API key included), \<open>image_store\<close> the outcome of fetching that image and
  storing it (storage id and stored URL).
\<close>

record image_env =
  image_api :: "js_error + string"
  image_store :: "js_error + (nat \<times> string)"

text \<open>
  \<open>callImageAPI\<close> with \<open>callOpenAIImageAPI\<close> and \<open>callNanoBananaAPI\<close>. The prompt is
  the template of the configuration with the dish name and the description put in;
  the log keeps these two instead of the rendered text.
\<close>

definition callImageAPI ::
  "config \<Rightarrow> image_env \<Rightarrow> string \<Rightarrow> string \<Rightarrow> string \<Rightarrow> (string \<times> real) action" where
  "callImageAPI cfg env promptName promptDescription provider c =
     (if provider = ''openai''
      then (case image_api env of
              Inl e \<Rightarrow> (c\<lparr>imageCalls := imageCalls c @ [(provider, promptName, promptDescription)]\<rparr>, Inl e)
            | Inr url \<Rightarrow>
                (c\<lparr>imageCalls := imageCalls c @ [(provider, promptName, promptDescription)]\<rparr>,
                 Inr (url, IMAGE_OPENAI (COSTS cfg))))
      else if provider = ''nano_banana''
      then (case image_api env of
              Inl e \<Rightarrow> (c\<lparr>imageCalls := imageCalls c @ [(provider, promptName, promptDescription)]\<rparr>, Inl e)
            | Inr url \<Rightarrow>
                (c\<lparr>imageCalls := imageCalls c @ [(provider, promptName, promptDescription)]\<rparr>,
                 Inr (url, IMAGE_NANO_BANANA (COSTS cfg))))
      else (c, Inl (Error (''Unknown image provider: '' @ provider))))"

text \<open>\<open>dish.description || "Delicious dish"\<close>: an absent or empty description is falsy.\<close>

definition prompt_description :: "dish \<Rightarrow> string" where
  "prompt_description dish =
     (case description dish of
        None \<Rightarrow> ''Delicious dish''
      | Some t \<Rightarrow> if t = [] then ''Delicious dish'' else t)"

text \<open>The \<open>try\<close> block: the search for the dish, and what follows once it is found.\<close>

definition generateDishImage_found ::
  "config \<Rightarrow> image_env \<Rightarrow> nat \<Rightarrow> nat \<Rightarrow> string \<Rightarrow> dish \<Rightarrow> unit action" where
  "generateDishImage_found cfg env did sid provider dish =
     bindA (runMutation (updateDishImage did IGenerating None None None None None))
     (\<lambda>_. bindA (callImageAPI cfg env (name dish) (prompt_description dish) provider)
     (\<lambda>(resultUrl, resultCost). case image_store env of
         Inl e \<Rightarrow> throwA e
       | Inr (storageId, storedUrl) \<Rightarrow>
     bindA (runMutation (updateDishImage did ICompleted (Some storageId) (Some storedUrl)
              (Some provider) (Some resultCost) None))
     (\<lambda>_ c3. case getScan (db c3) sid of
         None \<Rightarrow> returnA () c3
       | Some (scan, _) \<Rightarrow>
           (let newImagesGenerated = imagesGenerated scan + 1
            in bindA (runMutation (updateScanProgress sid None None
                        (Some newImagesGenerated) None None (Some resultCost) None))
               (\<lambda>_. if newImagesGenerated \<ge> imagesRequested scan
                     then runMutation (updateScanStatus sid Completed
                            (Some ''All images generated!'') None)
                     else returnA ()) c3))))"

definition generateDishImage_try ::
  "config \<Rightarrow> image_env \<Rightarrow> nat \<Rightarrow> nat \<Rightarrow> string \<Rightarrow> unit action" where
  "generateDishImage_try cfg env did sid provider c =
     (case find (\<lambda>d. dish_id d = did) (getDishesForScan (db c) sid) of
        None \<Rightarrow> throwA (Error ''Dish not found'') c
      | Some dish \<Rightarrow> generateDishImage_found cfg env did sid provider dish c)"

definition generateDishImage_catch :: "nat \<Rightarrow> nat \<Rightarrow> js_error \<Rightarrow> unit action" where
  "generateDishImage_catch did sid error =
     bindA (runMutation (updateDishImage did IFailed None None None None
              (Some (error_message error))))
     (\<lambda>_ c1. case getScan (db c1) sid of
         None \<Rightarrow> returnA () c1
       | Some (scan, _) \<Rightarrow>
           (let newImagesGenerated = imagesGenerated scan + 1
            in bindA (runMutation (updateScanProgress sid None None
                        (Some newImagesGenerated) None None None None))
               (\<lambda>_. if newImagesGenerated \<ge> imagesRequested scan
                     then runMutation (updateScanStatus sid Completed
                            (Some ''Processing complete (some images failed)'') None)
                     else returnA ()) c1))"

definition generateDishImage ::
  "config \<Rightarrow> image_env \<Rightarrow> nat \<Rightarrow> nat \<Rightarrow> string \<Rightarrow> unit action" where
  "generateDishImage cfg env did sid provider =
     tryCatch (generateDishImage_try cfg env did sid provider)
       (generateDishImage_catch did sid)"

subsection \<open>User-triggered generation\<close>

text \<open>\<open>generateRemainingImages\<close> returns \<open>{ queued, message, dishIds }\<close>, here as a triple.\<close>

definition generateRemainingImages ::
  "config \<Rightarrow> nat \<Rightarrow> string option \<Rightarrow> (int \<times> string \<times> nat list) action" where
  "generateRemainingImages cfg sid providerArg =
     (let provider = chooseProvider cfg providerArg
      in bindA (runMutation (queueRemainingImages cfg sid))
           (\<lambda>queueResult.
              case qr_dishIds queueResult of
                None \<Rightarrow> returnA (qr_queued queueResult, qr_message queueResult, [])
              | Some dishIds \<Rightarrow>
                  if qr_queued queueResult = 0
                  then returnA (qr_queued queueResult, qr_message queueResult, [])
                  else bindA (schedule_images dishIds sid provider)
                         (\<lambda>_. returnA (qr_queued queueResult, qr_message queueResult, dishIds))))"

text \<open>\<open>generateSingleDishImage\<close> returns \<open>{ success, message }\<close>, here as a pair.\<close>

definition generateSingleDishImage ::
  "config \<Rightarrow> nat \<Rightarrow> string option \<Rightarrow> (bool \<times> string) action" where
  "generateSingleDishImage cfg did providerArg =
     (let provider = chooseProvider cfg providerArg
      in bindA (runMutation (queueSingleDishImage cfg did))
           (\<lambda>result.
              case result of
                Single_not_queued msg \<Rightarrow>
                  returnA (False, if msg = [] then ''Could not queue image'' else msg)
              | Single_queued _ resultScanId \<Rightarrow>
                  bindA (runAfter (Job_generateDishImage did resultScanId provider))
                    (\<lambda>_. returnA (True, ''Image generation started''))))"

subsection \<open>The client's submission (app/capture.tsx)\<close>


section \<open>Sequences of operations\<close>

text \<open>
  The operations that write the counters and the status of a scan, each with what the
  outside world answers to it. \<open>apply_op\<close> runs one of them to its end and \<open>run\<close> a
  list of them, one after the other; an operation that throws leaves what it had
  committed before.
\<close>

datatype operation =
    Op_startProcessingScan nat "string option"
  | Op_processScanPipeline "string \<Rightarrow> js_error + VisionMenuOutput" nat string
  | Op_generateDishImage image_env nat nat string
  | Op_queueRemainingImages nat
  | Op_generateRemainingImages nat "string option"
  | Op_queueSingleDishImage nat
  | Op_generateSingleDishImage nat "string option"
  | Op_stopImageGeneration nat
  | Op_forceCompleteScan nat

fun apply_op :: "config \<Rightarrow> ctx \<Rightarrow> operation \<Rightarrow> ctx" where
  "apply_op cfg c (Op_startProcessingScan sid p) = fst (startProcessingScan cfg sid p c)"
| "apply_op cfg c (Op_processScanPipeline vision sid p) = fst (processScanPipeline cfg vision sid p c)"
| "apply_op cfg c (Op_generateDishImage env did sid p) = fst (generateDishImage cfg env did sid p c)"
| "apply_op cfg c (Op_queueRemainingImages sid) = fst (runMutation (queueRemainingImages cfg sid) c)"
| "apply_op cfg c (Op_generateRemainingImages sid p) = fst (generateRemainingImages cfg sid p c)"
| "apply_op cfg c (Op_queueSingleDishImage did) = fst (runMutation (queueSingleDishImage cfg did) c)"
| "apply_op cfg c (Op_generateSingleDishImage did p) = fst (generateSingleDishImage cfg did p c)"
| "apply_op cfg c (Op_stopImageGeneration sid) = fst (runMutation (stopImageGeneration sid) c)"
| "apply_op cfg c (Op_forceCompleteScan sid) = fst (runMutation (forceCompleteScan sid) c)"

definition run :: "config \<Rightarrow> ctx \<Rightarrow> operation list \<Rightarrow> ctx" where
  "run cfg c ops = foldl (apply_op cfg) c ops"

section \<open>Notions used in the statements\<close>

text \<open>
  The progress as the specification words it: fixed checkpoints, and in \<open>generating\<close>
  the ratio of generated to requested images scaled into the last 40 percent.
\<close>

definition spec_progress :: "scan_status \<Rightarrow> int \<Rightarrow> int \<Rightarrow> real" where
  "spec_progress stat generated requested =
     (if stat = Pending then 0
      else if stat = Uploading then 10
      else if stat = Processing then 25
      else if stat = Extracting then 50
      else if stat = Completed then 100
      else if stat = Failed then 0
      else 60 + 40 * (real_of_int generated / real_of_int requested))"

text \<open>The dishes with every dish whose id is in \<open>X\<close> given the image status \<open>v\<close>.\<close>

definition mark_status :: "image_status \<Rightarrow> nat set \<Rightarrow> dish list \<Rightarrow> dish list" where
  "mark_status v X ds = map (\<lambda>d. if dish_id d \<in> X then d\<lparr>imageStatus := v\<rparr> else d) ds"

text \<open>The number of dishes of a scan whose image is completed.\<close>

definition completed_count :: "store \<Rightarrow> nat \<Rightarrow> int" where
  "completed_count st sid = int (length (filter (\<lambda>d. imageStatus d = ICompleted) (by_scanId st sid)))"

definition queued_count :: "store \<Rightarrow> nat \<Rightarrow> int" where
  "queued_count st sid = int (length (filter (\<lambda>d. imageStatus d = IQueued) (by_scanId st sid)))"

text \<open>The bounds on the counters of every scan of a store.\<close>

definition counters_ok :: "config \<Rightarrow> store \<Rightarrow> bool" where
  "counters_ok cfg st \<longleftrightarrow>
     (\<forall>sid s. menuScans st sid = Some s \<longrightarrow>
        0 \<le> imagesGenerated s \<and> 0 \<le> imagesRequested s \<and>
        imagesRequested s \<le> MAX_IMAGES_PER_SCAN cfg)"



text \<open>The statuses of one scan in a list of stores, the stores without the scan left out.\<close>

definition status_trace :: "nat \<Rightarrow> store list \<Rightarrow> scan_status list" where
  "status_trace sid sts = map status (List.map_filter (\<lambda>st. menuScans st sid) sts)"

text \<open>
  The dishes the pipeline creates from the menu: the items of the sections, each under
  the name of its section, followed by the fallback items without one; the dish made
  from an item with its id and display order; the rows for a list of items, with
  consecutive ids and display orders; the store with a list of rows inserted, and
  the stores after each of the insertions.
\<close>

definition flatten_menu :: "VisionMenuOutput \<Rightarrow> (string option \<times> MenuItem) list" where
  "flatten_menu menuData =
     concat (map (\<lambda>sec. map (Pair (Some (section_name sec))) (items sec)) (sections menuData)) @
     (case itemsFallback menuData of None \<Rightarrow> [] | Some fb \<Rightarrow> map (Pair None) fb)"

definition new_dish :: "config \<Rightarrow> nat \<Rightarrow> nat \<Rightarrow> nat \<Rightarrow> int \<Rightarrow> string option \<Rightarrow> MenuItem \<Rightarrow> dish" where
  "new_dish cfg sid t i ord sec item =
     \<lparr>dish_id = i, scanId = sid, name = item_name item, description = item_description item,
      price = item_price item, sectionName = sec, displayOrder = ord,
      imageStatus = (if ord < AUTO_IMAGE_LIMIT cfg then IQueued else IPending),
      dish_imageStorageId = None, dish_imageUrl = None, imageProvider = None,
      imageCostUsd = None, imageError = None, dish_createdAt = t, imageGeneratedAt = None\<rparr>"

fun new_dishes ::
  "config \<Rightarrow> nat \<Rightarrow> nat \<Rightarrow> nat \<Rightarrow> int \<Rightarrow> (string option \<times> MenuItem) list \<Rightarrow> dish list" where
  "new_dishes cfg sid t i ord [] = []"
| "new_dishes cfg sid t i ord ((sec, item) # rest) =
     new_dish cfg sid t i ord sec item # new_dishes cfg sid t (Suc i) (ord + 1) rest"

definition insert_dishes :: "store \<Rightarrow> dish list \<Rightarrow> store" where
  "insert_dishes st ds = st\<lparr>dishes := dishes st @ ds, nextId := nextId st + length ds\<rparr>"

fun insert_commits :: "store \<Rightarrow> dish list \<Rightarrow> store list" where
  "insert_commits st [] = []"
| "insert_commits st (d # ds) = insert_dishes st [d] # insert_commits (insert_dishes st [d]) ds"

text \<open>
  A property of stores holds after a step from the context \<open>c\<close> to the context \<open>c'\<close>
  when it holds of the database of \<open>c'\<close> and of every state committed since \<open>c\<close>; an
  action preserves the property when it holds after the action wherever it held of
  the database before.
\<close>

definition holds_after :: "(store \<Rightarrow> bool) \<Rightarrow> ctx \<Rightarrow> ctx \<Rightarrow> bool" where
  "holds_after P c c' \<longleftrightarrow> P (db c') \<and> (\<forall>st\<in>set (committed c'). st \<in> set (committed c) \<or> P st)"

definition preserves :: "(store \<Rightarrow> bool) \<Rightarrow> 'a action \<Rightarrow> bool" where
  "preserves P a \<longleftrightarrow> (\<forall>c. P (db c) \<longrightarrow> holds_after P c (fst (a c)))"


text \<open>
  The bounds on the counters of a scan as the specification gives them:
  \<open>0 \<le> imagesGenerated \<le> imagesRequested \<le> min(totalDishes, MAX_IMAGES_PER_SCAN)\<close>.
\<close>

definition spec_counters_ok :: "config \<Rightarrow> scan \<Rightarrow> bool" where
  "spec_counters_ok cfg s \<longleftrightarrow>
     0 \<le> imagesGenerated s \<and> imagesGenerated s \<le> imagesRequested s \<and>
     imagesRequested s \<le> min (totalDishes s) (MAX_IMAGES_PER_SCAN cfg)"

section \<open>Example data\<close>

text \<open>
  A scan in \<open>generating\<close> with four dishes: one completed, two queued and one being
  generated.
\<close>

definition scan_example :: scan where
  "scan_example = \<lparr>deviceId = ''dev'', imageStorageId = Some 7, imageUrl = Some ''http://img'',
     restaurantName = None, status = Generating, statusMessage = None, totalDishes = 4,
     dishesExtracted = 4, imagesGenerated = 1, imagesRequested = 4, estimatedCostUsd = 9 / 100,
     actualCostUsd = 3 / 100, createdAt = 1000, completedAt = None, errorMessage = None\<rparr>"

definition dish_example :: "nat \<Rightarrow> int \<Rightarrow> image_status \<Rightarrow> dish" where
  "dish_example i n v = \<lparr>dish_id = i, scanId = 0, name = ''Soup'', description = None, price = None,
     sectionName = Some ''Mains'', displayOrder = n, imageStatus = v, dish_imageStorageId = None,
     dish_imageUrl = None, imageProvider = None, imageCostUsd = None, imageError = None,
     dish_createdAt = 1000, imageGeneratedAt = None\<rparr>"

definition store_example :: store where
  "store_example = \<lparr>menuScans = [0 \<mapsto> scan_example], deviceUsers = Map.empty,
     dishes = [dish_example 1 0 ICompleted, dish_example 2 1 IQueued,
               dish_example 3 2 IGenerating, dish_example 4 3 IQueued],
     nextId = 5, now = 2000\<rparr>"

text \<open>
  The same scan after two failed attempts were counted: three images counted as
  generated, one dish completed.
\<close>

definition store_failed_example :: store where
  "store_failed_example = \<lparr>menuScans = [0 \<mapsto> scan_example\<lparr>imagesGenerated := 3\<rparr>],
     deviceUsers = Map.empty,
     dishes = [dish_example 1 0 ICompleted, dish_example 2 1 IFailed,
               dish_example 3 2 IFailed, dish_example 4 3 IQueued],
     nextId = 5, now = 2000\<rparr>"

definition ctx_example :: ctx where
  "ctx_example = \<lparr>db = store_example, scheduled = [], committed = [], imageCalls = []\<rparr>"

text \<open>A provider that answers with an image, and one that fails.\<close>

definition env_ok :: image_env where
  "env_ok = \<lparr>image_api = Inr ''http://provider/image.png'',
              image_store = Inr (9, ''http://storage/9'')\<rparr>"

definition env_failing :: image_env where
  "env_failing = \<lparr>image_api = Inl (Error ''OpenAI Image API error: rate limit''),
                   image_store = Inr (9, ''http://storage/9'')\<rparr>"

definition ctx_failed_example :: ctx where
  "ctx_failed_example = \<lparr>db = store_failed_example, scheduled = [], committed = [], imageCalls = []\<rparr>"

text \<open>
  A scan whose processing has started, the menu that the vision provider extracts
  from its photo, and a configuration that queues the first two dishes.
\<close>

definition menu_example :: VisionMenuOutput where
  "menu_example = \<lparr>vm_restaurantName = Some ''Chez Nous'',
     sections = [\<lparr>section_name = ''Mains'',
                  items = [\<lparr>item_name = ''Soup'', item_description = None, item_price = None\<rparr>,
                           \<lparr>item_name = ''Pie'', item_description = Some ''apple'',
                            item_price = Some ''$4''\<rparr>]\<rparr>],
     itemsFallback = Some [\<lparr>item_name = ''Tea'', item_description = None, item_price = None\<rparr>]\<rparr>"

definition scan_processing_example :: scan where
  "scan_processing_example = \<lparr>deviceId = ''dev'', imageStorageId = Some 7,
     imageUrl = Some ''http://img'', restaurantName = None, status = Processing,
     statusMessage = Some ''Analyzing menu image...'', totalDishes = 0, dishesExtracted = 0,
     imagesGenerated = 0, imagesRequested = 0, estimatedCostUsd = 1 / 100, actualCostUsd = 0,
     createdAt = 1000, completedAt = None, errorMessage = None\<rparr>"

definition ctx_processing_example :: ctx where
  "ctx_processing_example =
     \<lparr>db = \<lparr>menuScans = [0 \<mapsto> scan_processing_example], deviceUsers = Map.empty, dishes = [],
             nextId = 1, now = 2000\<rparr>,
      scheduled = [], committed = [], imageCalls = []\<rparr>"

definition config_auto2 :: config where
  "config_auto2 = CONFIG\<lparr>AUTO_IMAGE_LIMIT := 2\<rparr>"

text \<open>
  A menu of one dish, and two sequences of operations on the scan whose processing has
  started: in the first the dish is queued, the generation is stopped and the dish is
  queued again; in the second the dish is queued and its image generated, and the
  processing is then started a second time.
\<close>

definition menu_single_example :: VisionMenuOutput where
  "menu_single_example = \<lparr>vm_restaurantName = None,
     sections = [\<lparr>section_name = ''Menu'',
                  items = [\<lparr>item_name = ''Soup'', item_description = None, item_price = None\<rparr>]\<rparr>],
     itemsFallback = None\<rparr>"

definition ops_requeue_example :: "operation list" where
  "ops_requeue_example =
     [Op_processScanPipeline (\<lambda>_. Inr menu_single_example) 0 ''openai'',
      Op_generateSingleDishImage 1 None,
      Op_stopImageGeneration 0,
      Op_generateSingleDishImage 1 None]"

definition ops_rerun_example :: "operation list" where
  "ops_rerun_example =
     [Op_processScanPipeline (\<lambda>_. Inr menu_single_example) 0 ''openai'',
      Op_generateSingleDishImage 1 None,
      Op_generateDishImage env_ok 1 0 ''openai'',
      Op_startProcessingScan 0 None,
      Op_processScanPipeline (\<lambda>_. Inr menu_single_example) 0 ''openai'']"




text \<open>
  The scan of the first example with a dish in a section that the menu calls
  \<open>constructor\<close>.
\<close>

definition store_constructor_example :: store where
  "store_constructor_example = \<lparr>menuScans = [0 \<mapsto> scan_example], deviceUsers = Map.empty,
     dishes = [dish_example 1 0 ICompleted,
               (dish_example 2 1 IQueued)\<lparr>sectionName := Some ''constructor''\<rparr>,
               dish_example 3 2 IGenerating, dish_example 4 3 IQueued],
     nextId = 5, now = 2000\<rparr>"

section \<open>The progress percentage\<close>

text \<open>
  The \<open>switch\<close> of both queries computes the function of the status and the counters
  that the specification gives: 0, 10, 25, 50, 100 and 0 for pending, uploading,
  processing, extracting, completed and failed, and
  60 + 40 * (imagesGenerated / imagesRequested) for generating with
  imagesRequested > 0. Both queries are functions of the store that return a value
  and no store, so they are deterministic and write nothing.
\<close>

lemma progress_of_spec:
  assumes "status s = Generating \<longrightarrow> 0 < imagesRequested s"
  shows "progress_of s = spec_progress (status s) (imagesGenerated s) (imagesRequested s)"
  using assms by (cases "status s") (simp_all add: progress_of_def spec_progress_def Let_def)

lemma getScan_spec_progress:
  assumes "menuScans st sid = Some s"
    and "status s = Generating \<longrightarrow> 0 < imagesRequested s"
  shows "getScan st sid =
           Some (s, spec_progress (status s) (imagesGenerated s) (imagesRequested s))"
  using assms(1) progress_of_spec [OF assms(2)] by (simp add: getScan_def)

text \<open>
  The loop of \<open>getScanWithDishes\<close> ends normally when no truthy section name of the
  dishes is an inherited name, and throws as soon as it meets one.
\<close>

lemma section_keys_Cons:
  "section_keys (d # ds) =
     (case sectionName d of
        None \<Rightarrow> section_keys ds
      | Some sn \<Rightarrow> if sn = [] then section_keys ds else sn # section_keys ds)"
  by (simp add: section_keys_def List.map_filter_simps split: option.splits)

lemma group_sections_returns:
  assumes "set (section_keys ds) \<inter> set object_prototype_keys = {}"
  shows "\<exists>secs. group_sections ds acc = Inr secs \<and> dom secs = dom acc \<union> set (section_keys ds)"
  using assms
proof (induction ds arbitrary: acc)
  case Nil
  then show ?case by (simp add: section_keys_def List.map_filter_simps)
next
  case (Cons d ds)
  show ?case
  proof (cases "sectionName d")
    case None
    then show ?thesis
      using Cons.IH [of acc] Cons.prems by (simp add: section_keys_Cons)
  next
    case (Some sn)
    show ?thesis
    proof (cases "sn = []")
      case True
      then show ?thesis
        using Some Cons.IH [of acc] Cons.prems by (simp add: section_keys_Cons)
    next
      case False
      have rest: "set (section_keys ds) \<inter> set object_prototype_keys = {}"
        and sn: "sn \<notin> set object_prototype_keys"
        using Cons.prems Some False by (auto simp: section_keys_Cons)
      show ?thesis
      proof (cases "acc sn")
        case None
        obtain secs where r: "group_sections ds (acc(sn \<mapsto> [d])) = Inr secs"
          and dm: "dom secs = dom (acc(sn \<mapsto> [d])) \<union> set (section_keys ds)"
          using Cons.IH [OF rest] by blast
        have "group_sections (d # ds) acc = Inr secs"
          using \<open>sectionName d = Some sn\<close> False sn None r by simp
        moreover have "dom secs = dom acc \<union> set (section_keys (d # ds))"
          using \<open>sectionName d = Some sn\<close> False dm by (auto simp: section_keys_Cons)
        ultimately show ?thesis by blast
      next
        case (Some xs)
        obtain secs where r: "group_sections ds (acc(sn \<mapsto> xs @ [d])) = Inr secs"
          and dm: "dom secs = dom (acc(sn \<mapsto> xs @ [d])) \<union> set (section_keys ds)"
          using Cons.IH [OF rest] by blast
        have "group_sections (d # ds) acc = Inr secs"
          using \<open>sectionName d = Some sn\<close> False Some r by simp
        moreover have "dom secs = dom acc \<union> set (section_keys (d # ds))"
          using \<open>sectionName d = Some sn\<close> False dm by (auto simp: section_keys_Cons)
        ultimately show ?thesis by blast
      qed
    qed
  qed
qed

lemma group_sections_throws:
  assumes "set (section_keys ds) \<inter> set object_prototype_keys \<noteq> {}"
    and "dom acc \<inter> set object_prototype_keys = {}"
  shows "group_sections ds acc = Inl push_not_function"
  using assms
proof (induction ds arbitrary: acc)
  case Nil
  then show ?case by (simp add: section_keys_def List.map_filter_simps)
next
  case (Cons d ds)
  show ?case
  proof (cases "sectionName d")
    case None
    then show ?thesis
      using Cons.IH [of acc] Cons.prems by (simp add: section_keys_Cons)
  next
    case (Some sn)
    show ?thesis
    proof (cases "sn = []")
      case True
      then show ?thesis
        using Some Cons.IH [of acc] Cons.prems by (simp add: section_keys_Cons)
    next
      case False
      show ?thesis
      proof (cases "sn \<in> set object_prototype_keys")
        case True
        then have "acc sn = None"
          using Cons.prems(2) by (auto simp: dom_def)
        then show ?thesis
          using Some False True by simp
      next
        case notin: False
        then have rest: "set (section_keys ds) \<inter> set object_prototype_keys \<noteq> {}"
          using Cons.prems(1) Some False by (auto simp: section_keys_Cons)
        have d1: "dom (acc(sn \<mapsto> v)) \<inter> set object_prototype_keys = {}" for v
          using Cons.prems(2) notin by auto
        have r: "group_sections ds (acc(sn \<mapsto> v)) = Inl push_not_function" for v
          by (rule Cons.IH [OF rest d1])
        show ?thesis
          using Some False notin by (simp add: r split: option.splits)
      qed
    qed
  qed
qed

text \<open>
  So \<open>getScanWithDishes\<close> returns the progress of the specification for a scan none
  of whose dishes has an inherited name as its section name, when the runtime
  accepts the section names as field names.
\<close>

lemma getScanWithDishes_spec_progress:
  assumes "menuScans st sid = Some s"
    and "status s = Generating \<longrightarrow> 0 < imagesRequested s"
    and "set (section_keys (by_scanId_order st sid)) \<inter> set object_prototype_keys = {}"
    and "list_all validField (section_keys (by_scanId_order st sid))"
  shows "\<exists>secs. getScanWithDishes validField st sid =
           Inr (Some ((s, spec_progress (status s) (imagesGenerated s) (imagesRequested s)),
                  by_scanId_order st sid, secs,
                  filter (\<lambda>d. sectionName d = None \<or> sectionName d = Some [])
                    (by_scanId_order st sid)))"
proof -
  obtain secs where "group_sections (by_scanId_order st sid) Map.empty = Inr secs"
    using group_sections_returns [OF assms(3)] by blast
  then show ?thesis
    using assms(1,4) progress_of_spec [OF assms(2)]
    by (simp add: getScanWithDishes_def Let_def)
qed

lemma getScanWithDishes_throws:
  assumes "menuScans st sid = Some s"
    and "set (section_keys (by_scanId_order st sid)) \<inter> set object_prototype_keys \<noteq> {}"
  shows "getScanWithDishes validField st sid = Inl push_not_function"
  using assms(1) group_sections_throws [OF assms(2), of Map.empty]
  by (simp add: getScanWithDishes_def Let_def)

text \<open>
  Claim C4 says that for every scan \<open>getScan\<close> and \<open>getScanWithDishes\<close> return the
  progress that is this function of the status and the counters. On the example
  scan, which is generating with one image of four, \<open>getScan\<close> returns 70, and so
  does \<open>getScanWithDishes\<close> while all the sections are called \<open>Mains\<close>. With one dish
  in a section called \<open>constructor\<close>, \<open>getScan\<close> still returns 70 and
  \<open>getScanWithDishes\<close> throws and returns no progress, whatever field names the
  runtime accepts.
\<close>

theorem getScanWithDishes_inherited_section_name:
  "map_option snd (getScan store_example 0) = Some 70 \<and>
   map_sum id (map_option (snd \<circ> fst)) (getScanWithDishes (\<lambda>k. True) store_example 0) =
     Inr (Some 70) \<and>
   menuScans store_constructor_example 0 = menuScans store_example 0 \<and>
   map sectionName (by_scanId_order store_constructor_example 0) =
     [Some ''Mains'', Some ''constructor'', Some ''Mains'', Some ''Mains''] \<and>
   map_option snd (getScan store_constructor_example 0) = Some 70 \<and>
   getScanWithDishes validField store_constructor_example 0 = Inl push_not_function"
proof -
  have p: "progress_of scan_example = 70"
    by (simp add: progress_of_def scan_example_def)
  have ds: "by_scanId_order store_example 0 =
              [dish_example 1 0 ICompleted, dish_example 2 1 IQueued,
               dish_example 3 2 IGenerating, dish_example 4 3 IQueued]"
    by (simp add: by_scanId_order_def by_scanId_def store_example_def dish_example_def)
  have dc: "by_scanId_order store_constructor_example 0 =
              [dish_example 1 0 ICompleted,
               (dish_example 2 1 IQueued)\<lparr>sectionName := Some ''constructor''\<rparr>,
               dish_example 3 2 IGenerating, dish_example 4 3 IQueued]"
    by (simp add: by_scanId_order_def by_scanId_def store_constructor_example_def
        dish_example_def)
  have m: "menuScans store_example 0 = Some scan_example"
    "menuScans store_constructor_example 0 = Some scan_example"
    by (simp_all add: store_example_def store_constructor_example_def)
  have 1: "map_option snd (getScan store_example 0) = Some 70"
    "map_option snd (getScan store_constructor_example 0) = Some 70"
    by (simp_all add: getScan_def m p)
  have 2: "map_sum id (map_option (snd \<circ> fst)) (getScanWithDishes (\<lambda>k. True) store_example 0) =
             Inr (Some 70)"
    by (simp add: getScanWithDishes_def m ds p Let_def section_keys_def
        List.map_filter_simps dish_example_def object_prototype_keys_def)
  have 3: "getScanWithDishes validField store_constructor_example 0 = Inl push_not_function"
    by (simp add: getScanWithDishes_def m dc Let_def dish_example_def
        object_prototype_keys_def)
  have 4: "map sectionName (by_scanId_order store_constructor_example 0) =
             [Some ''Mains'', Some ''constructor'', Some ''Mains'', Some ''Mains'']"
    by (simp add: dc dish_example_def)
  show ?thesis
    using 1 2 3 4 m by simp
qed

section \<open>Facts about the database primitives\<close>

lemma find_dish_id_map:
  assumes "\<And>d. dish_id (g d) = dish_id d"
  shows "find (\<lambda>d. dish_id d = j) (map g xs) = map_option g (find (\<lambda>d. dish_id d = j) xs)"
  using assms by (induction xs) simp_all

lemma find_dish_id_None: "find (\<lambda>d. dish_id d = j) xs = None \<longleftrightarrow> j \<notin> dish_id ` set xs"
  by (induction xs) auto

lemma mark_status_ids [simp]: "map dish_id (mark_status v X ds) = map dish_id ds"
  by (simp add: mark_status_def)

lemma mark_status_empty [simp]: "mark_status v {} ds = ds"
  by (simp add: mark_status_def)

lemma mark_status_twice: "mark_status v X (mark_status v Y ds) = mark_status v (Y \<union> X) ds"
  by (simp add: mark_status_def)

lemma patch_dish_status:
  assumes "i \<in> dish_id ` set (dishes st)"
  shows "patch_dish st i (\<lambda>x. x\<lparr>imageStatus := v\<rparr>) = Inr (st\<lparr>dishes := mark_status v {i} (dishes st)\<rparr>)"
proof -
  obtain d where "db_get_dish st i = Some d"
    using assms find_dish_id_None [of i "dishes st"] by (auto simp: db_get_dish_def)
  then show ?thesis by (simp add: patch_dish_def mark_status_def)
qed

lemma patch_scan_Some:
  "menuScans st i = Some s \<Longrightarrow> patch_scan st i f = Inr (st\<lparr>menuScans := (menuScans st)(i \<mapsto> f s)\<rparr>)"
  by (simp add: patch_scan_def)

section \<open>Facts about the loops of the mutations\<close>

lemma stop_loop_result:
  assumes "dish_id ` set ds \<subseteq> dish_id ` set (dishes st)"
  shows "stop_loop st ds k c =
           Inr (st\<lparr>dishes := mark_status ISkipped
                    (dish_id ` {d \<in> set ds. imageStatus d = IQueued}) (dishes st)\<rparr>,
                k + int (length (filter (\<lambda>d. imageStatus d = IQueued) ds)),
                c + int (length (filter (\<lambda>d. imageStatus d = ICompleted) ds)))"
  using assms
proof (induction ds arbitrary: st k c)
  case Nil
  then show ?case by simp
next
  case (Cons d ds)
  show ?case
  proof (cases "imageStatus d = IQueued")
    case True
    let ?st' = "st\<lparr>dishes := mark_status ISkipped {dish_id d} (dishes st)\<rparr>"
    have p: "patch_dish st (dish_id d) (\<lambda>x. x\<lparr>imageStatus := ISkipped\<rparr>) = Inr ?st'"
      using Cons.prems by (intro patch_dish_status) auto
    have ids: "dish_id ` set ds \<subseteq> dish_id ` set (dishes ?st')"
      using Cons.prems by (simp flip: set_map)
    have X: "dish_id ` {x \<in> set (d # ds). imageStatus x = IQueued} =
             {dish_id d} \<union> dish_id ` {x \<in> set ds. imageStatus x = IQueued}"
      using True by auto
    show ?thesis
      using True by (simp add: p Cons.IH [OF ids] mark_status_twice X del: set_simps image_insert)
  next
    case False
    have ids: "dish_id ` set ds \<subseteq> dish_id ` set (dishes st)"
      using Cons.prems by simp
    have X: "dish_id ` {x \<in> set (d # ds). imageStatus x = IQueued} =
             dish_id ` {x \<in> set ds. imageStatus x = IQueued}"
      using False by auto
    show ?thesis
      using False by (simp add: Cons.IH [OF ids] X del: set_simps)
  qed
qed

lemma force_loop_result:
  assumes "dish_id ` set ds \<subseteq> dish_id ` set (dishes st)"
  shows "force_loop st ds k =
           Inr (st\<lparr>dishes := mark_status ISkipped
                    (dish_id ` {d \<in> set ds. imageStatus d = IQueued \<or> imageStatus d = IGenerating})
                    (dishes st)\<rparr>,
                k + int (length (filter (\<lambda>d. imageStatus d = ICompleted) ds)))"
  using assms
proof (induction ds arbitrary: st k)
  case Nil
  then show ?case by simp
next
  case (Cons d ds)
  show ?case
  proof (cases "imageStatus d = IQueued \<or> imageStatus d = IGenerating")
    case True
    let ?st' = "st\<lparr>dishes := mark_status ISkipped {dish_id d} (dishes st)\<rparr>"
    have p: "patch_dish st (dish_id d) (\<lambda>x. x\<lparr>imageStatus := ISkipped\<rparr>) = Inr ?st'"
      using Cons.prems by (intro patch_dish_status) auto
    have ids: "dish_id ` set ds \<subseteq> dish_id ` set (dishes ?st')"
      using Cons.prems by (simp flip: set_map)
    have X: "dish_id ` {x \<in> set (d # ds). imageStatus x = IQueued \<or> imageStatus x = IGenerating} =
             {dish_id d} \<union> dish_id ` {x \<in> set ds. imageStatus x = IQueued \<or> imageStatus x = IGenerating}"
      using True by auto
    from True have nc: "imageStatus d \<noteq> ICompleted" by auto
    show ?thesis
      using True nc by (simp add: p Cons.IH [OF ids] mark_status_twice X del: set_simps image_insert)
  next
    case False
    have ids: "dish_id ` set ds \<subseteq> dish_id ` set (dishes st)"
      using Cons.prems by simp
    have X: "dish_id ` {x \<in> set (d # ds). imageStatus x = IQueued \<or> imageStatus x = IGenerating} =
             dish_id ` {x \<in> set ds. imageStatus x = IQueued \<or> imageStatus x = IGenerating}"
      using False by auto
    show ?thesis
      using False by (simp add: Cons.IH [OF ids] X del: set_simps)
  qed
qed

lemma by_scanId_ids: "dish_id ` set (by_scanId st sid) \<subseteq> dish_id ` set (dishes st)"
  by (auto simp: by_scanId_def)

lemma stopImageGeneration_result:
  assumes "menuScans st sid = Some s"
  shows "stopImageGeneration sid st =
     Inr (st\<lparr>dishes := mark_status ISkipped
                (dish_id ` {d \<in> set (by_scanId st sid). imageStatus d = IQueued}) (dishes st),
              menuScans := (menuScans st)(sid \<mapsto>
                s\<lparr>status := Completed, imagesGenerated := completed_count st sid,
                   statusMessage := Some (''Stopped - '' @ show_int (completed_count st sid) @
                      '' images completed, '' @ show_int (queued_count st sid) @ '' skipped''),
                   completedAt := Some (now st)\<rparr>)\<rparr>,
          completed_count st sid, queued_count st sid)"
  using assms
  by (simp add: stopImageGeneration_def Let_def stop_loop_result [OF by_scanId_ids]
      patch_scan_def completed_count_def queued_count_def)

lemma forceCompleteScan_result:
  assumes "menuScans st sid = Some s"
  shows "forceCompleteScan sid st =
     Inr (st\<lparr>dishes := mark_status ISkipped
                (dish_id ` {d \<in> set (by_scanId st sid).
                   imageStatus d = IQueued \<or> imageStatus d = IGenerating}) (dishes st),
              menuScans := (menuScans st)(sid \<mapsto>
                s\<lparr>status := Completed, imagesGenerated := completed_count st sid,
                   statusMessage := Some (''Completed with '' @ show_int (completed_count st sid) @
                      '' images''),
                   completedAt := Some (now st)\<rparr>)\<rparr>,
          completed_count st sid, int (length (by_scanId st sid)))"
  using assms
  by (simp add: forceCompleteScan_def Let_def force_loop_result [OF by_scanId_ids]
      patch_scan_def completed_count_def)


lemma mark_status_distinct:
  assumes "distinct (map dish_id ds)"
  shows "mark_status v (dish_id ` {d \<in> set ds. Q d}) ds =
         map (\<lambda>d. if Q d then d\<lparr>imageStatus := v\<rparr> else d) ds"
proof -
  have inj: "inj_on dish_id (set ds)"
    using assms by (simp add: distinct_map)
  have "dish_id d \<in> dish_id ` {x \<in> set ds. Q x} \<longleftrightarrow> Q d" if "d \<in> set ds" for d
    using that inj by (auto dest: inj_onD)
  then show ?thesis
    unfolding mark_status_def by (intro map_cong) simp_all
qed

lemma by_scanId_Collect:
  "{d \<in> set (by_scanId st sid). Q d} = {d \<in> set (dishes st). scanId d = sid \<and> Q d}"
  by (auto simp: by_scanId_def)

lemma filter_status_map:
  assumes "\<And>d. P d \<Longrightarrow> imageStatus d \<noteq> w" and "v \<noteq> w"
  shows "filter (\<lambda>d. imageStatus d = w) (map (\<lambda>d. if P d then d\<lparr>imageStatus := v\<rparr> else d) ds) =
         filter (\<lambda>d. imageStatus d = w) ds"
  using assms by (induction ds) auto

section \<open>Stopping the generation\<close>

text \<open>
  Claim C8. \<open>stopImageGeneration\<close> on an existing scan returns normally; it gives the
  status \<open>skipped\<close> to every dish of the scan that is \<open>queued\<close> and changes no other
  dish, so the dishes in \<open>generating\<close> are the same before and after; it sets the
  status of the scan to \<open>completed\<close> and writes the number of dishes of the scan that
  were already completed into the status message. Document ids are distinct.
\<close>

theorem stopImageGeneration_effect:
  assumes "menuScans st sid = Some s" and "distinct (map dish_id (dishes st))"
  shows "case stopImageGeneration sid st of
           Inl e \<Rightarrow> False
         | Inr (st', completed, skipped) \<Rightarrow>
             dishes st' = map (\<lambda>d. if scanId d = sid \<and> imageStatus d = IQueued
                                    then d\<lparr>imageStatus := ISkipped\<rparr> else d) (dishes st) \<and>
             filter (\<lambda>d. imageStatus d = IGenerating) (dishes st') =
               filter (\<lambda>d. imageStatus d = IGenerating) (dishes st) \<and>
             completed = completed_count st sid \<and>
             map_option status (menuScans st' sid) = Some Completed \<and>
             map_option statusMessage (menuScans st' sid) =
               Some (Some (''Stopped - '' @ show_int completed @ '' images completed, '' @
                           show_int skipped @ '' skipped''))"
proof -
  have D: "mark_status ISkipped (dish_id ` {d \<in> set (by_scanId st sid). imageStatus d = IQueued})
             (dishes st) =
           map (\<lambda>d. if scanId d = sid \<and> imageStatus d = IQueued
                     then d\<lparr>imageStatus := ISkipped\<rparr> else d) (dishes st)"
    by (simp only: by_scanId_Collect mark_status_distinct [OF assms(2)])
  have G: "filter (\<lambda>d. imageStatus d = IGenerating)
             (map (\<lambda>d. if scanId d = sid \<and> imageStatus d = IQueued
                       then d\<lparr>imageStatus := ISkipped\<rparr> else d) (dishes st)) =
           filter (\<lambda>d. imageStatus d = IGenerating) (dishes st)"
    by (rule filter_status_map) simp_all
  show ?thesis
    by (simp add: stopImageGeneration_result [OF assms(1)] D G)
qed

theorem stopImageGeneration_effect_witness:
  "menuScans store_example 0 = Some scan_example \<and>
   distinct (map dish_id (dishes store_example)) \<and>
   map imageStatus (dishes store_example) = [ICompleted, IQueued, IGenerating, IQueued] \<and>
   (case stopImageGeneration 0 store_example of
      Inl e \<Rightarrow> False
    | Inr (st', completed, skipped) \<Rightarrow>
        map imageStatus (dishes st') = [ICompleted, ISkipped, IGenerating, ISkipped] \<and>
        map_option status (menuScans st' 0) = Some Completed \<and>
        map_option statusMessage (menuScans st' 0) =
          Some (Some ''Stopped - 1 images completed, 2 skipped''))"
proof -
  have h1: "menuScans store_example 0 = Some scan_example"
    by (simp add: store_example_def)
  have h2: "distinct (map dish_id (dishes store_example))"
    by (simp add: store_example_def dish_example_def)
  have c: "completed_count store_example 0 = 1"
    by (simp add: completed_count_def by_scanId_def store_example_def dish_example_def)
  have s1: "show_int 1 = ''1''" and s2: "show_int 2 = ''2''"
    by (simp_all add: show_int_def show_nat.simps)
  obtain st' completed skipped where
    r: "stopImageGeneration 0 store_example = Inr (st', completed, skipped)"
    using stopImageGeneration_result [OF h1] by blast
  have "skipped = queued_count store_example 0"
    using r unfolding stopImageGeneration_result [OF h1] by simp
  moreover have "queued_count store_example 0 = 2"
    by (simp add: queued_count_def by_scanId_def store_example_def dish_example_def)
  ultimately have sk: "skipped = 2" by simp
  from stopImageGeneration_effect [OF h1 h2]
  have f1: "dishes st' = map (\<lambda>d. if scanId d = 0 \<and> imageStatus d = IQueued
                                    then d\<lparr>imageStatus := ISkipped\<rparr> else d) (dishes store_example)"
    and f2: "completed = completed_count store_example 0"
    and f3: "map_option status (menuScans st' 0) = Some Completed"
    and f4: "map_option statusMessage (menuScans st' 0) =
               Some (Some (''Stopped - '' @ show_int completed @ '' images completed, '' @
                           show_int skipped @ '' skipped''))"
    unfolding r sum.case prod.case by blast+
  have g1: "map imageStatus (dishes st') = [ICompleted, ISkipped, IGenerating, ISkipped]"
    unfolding f1 by (simp add: store_example_def dish_example_def)
  have g4: "map_option statusMessage (menuScans st' 0) =
              Some (Some ''Stopped - 1 images completed, 2 skipped'')"
    unfolding f4 f2 c sk s1 s2 by simp
  have g0: "map imageStatus (dishes store_example) = [ICompleted, IQueued, IGenerating, IQueued]"
    by (simp add: store_example_def dish_example_def)
  show ?thesis
    unfolding r using h1 h2 g0 g1 f3 g4 by simp
qed

section \<open>The counter after a stop or a forced completion\<close>

text \<open>
  Claim C10. \<open>stopImageGeneration\<close> and \<open>forceCompleteScan\<close> both overwrite
  \<open>imagesGenerated\<close> with the number of dishes of the scan whose image status is
  \<open>completed\<close> when they are called, whatever the counter held before: increments
  that failed attempts had contributed are gone.
\<close>

theorem imagesGenerated_overwritten:
  assumes "menuScans st sid = Some s"
  shows "(case stopImageGeneration sid st of
            Inl e \<Rightarrow> False
          | Inr (st', r) \<Rightarrow>
              map_option imagesGenerated (menuScans st' sid) = Some (completed_count st sid)) \<and>
         (case forceCompleteScan sid st of
            Inl e \<Rightarrow> False
          | Inr (st', r) \<Rightarrow>
              map_option imagesGenerated (menuScans st' sid) = Some (completed_count st sid))"
  by (simp add: stopImageGeneration_result [OF assms] forceCompleteScan_result [OF assms])

theorem imagesGenerated_overwritten_witness:
  "map_option imagesGenerated (menuScans store_failed_example 0) = Some 3 \<and>
   (case stopImageGeneration 0 store_failed_example of
      Inl e \<Rightarrow> False
    | Inr (st', r) \<Rightarrow> map_option imagesGenerated (menuScans st' 0) = Some 1) \<and>
   (case forceCompleteScan 0 store_failed_example of
      Inl e \<Rightarrow> False
    | Inr (st', r) \<Rightarrow> map_option imagesGenerated (menuScans st' 0) = Some 1)"
proof -
  have h: "menuScans store_failed_example 0 = Some (scan_example\<lparr>imagesGenerated := 3\<rparr>)"
    by (simp add: store_failed_example_def)
  have c: "completed_count store_failed_example 0 = 1"
    by (simp add: completed_count_def by_scanId_def store_failed_example_def dish_example_def)
  show ?thesis
    using imagesGenerated_overwritten [OF h] unfolding c by (simp add: h)
qed

section \<open>Queueing one dish that is done or in progress\<close>

text \<open>
  Claim C7. On a dish whose image status is \<open>completed\<close> or \<open>generating\<close>,
  \<open>queueSingleDishImage\<close> returns a result that is not queued and the store as it
  was, and \<open>generateSingleDishImage\<close> leaves the database unchanged, schedules
  nothing and reports no success.
\<close>

theorem queueSingleDishImage_noop:
  assumes "db_get_dish (db c) did = Some d"
    and "imageStatus d = ICompleted \<or> imageStatus d = IGenerating"
  shows "queueSingleDishImage cfg did (db c) =
           Inr (db c, Single_not_queued ''Image already generated or in progress'') \<and>
         db (fst (generateSingleDishImage cfg did p c)) = db c \<and>
         scheduled (fst (generateSingleDishImage cfg did p c)) = scheduled c \<and>
         snd (generateSingleDishImage cfg did p c) =
           Inr (False, ''Image already generated or in progress'')"
proof -
  have q: "queueSingleDishImage cfg did (db c) =
             Inr (db c, Single_not_queued ''Image already generated or in progress'')"
    using assms by (auto simp: queueSingleDishImage_def)
  then show ?thesis
    by (simp add: generateSingleDishImage_def Let_def bindA_def runMutation_def returnA_def)
qed


theorem queueSingleDishImage_noop_witness:
  "db_get_dish (db ctx_example) 1 = Some (dish_example 1 0 ICompleted) \<and>
   imageStatus (dish_example 1 0 ICompleted) = ICompleted \<and>
   queueSingleDishImage CONFIG 1 (db ctx_example) =
     Inr (db ctx_example, Single_not_queued ''Image already generated or in progress'') \<and>
   db (fst (generateSingleDishImage CONFIG 1 None ctx_example)) = db ctx_example \<and>
   scheduled (fst (generateSingleDishImage CONFIG 1 None ctx_example)) = [] \<and>
   snd (generateSingleDishImage CONFIG 1 None ctx_example) =
     Inr (False, ''Image already generated or in progress'')"
proof -
  have h1: "db_get_dish (db ctx_example) 1 = Some (dish_example 1 0 ICompleted)"
    by (simp add: ctx_example_def store_example_def db_get_dish_def dish_example_def)
  have h2: "imageStatus (dish_example 1 0 ICompleted) = ICompleted \<or>
            imageStatus (dish_example 1 0 ICompleted) = IGenerating"
    by (simp add: dish_example_def)
  have h3: "scheduled ctx_example = []"
    by (simp add: ctx_example_def)
  show ?thesis
    using queueSingleDishImage_noop [OF h1 h2, of CONFIG None] h1 h3
    by (simp add: dish_example_def)
qed

section \<open>Facts about the mutations of the worker\<close>

lemma find_Some_set: "find P xs = Some x \<Longrightarrow> x \<in> set xs \<and> P x"
  by (induction xs) (auto split: if_splits)

lemma getDishesForScan_found:
  assumes "find (\<lambda>d. dish_id d = did) (getDishesForScan st sid) = Some dish"
  shows "did \<in> dish_id ` set (dishes st)"
proof -
  from find_Some_set [OF assms] have "dish \<in> set (dishes st)" "dish_id dish = did"
    by (auto simp: getDishesForScan_def by_scanId_order_def by_scanId_def)
  then show ?thesis by blast
qed

lemma patch_dish_result:
  assumes "i \<in> dish_id ` set (dishes st)"
  shows "patch_dish st i f = Inr (st\<lparr>dishes := map (\<lambda>d. if dish_id d = i then f d else d) (dishes st)\<rparr>)"
proof -
  obtain d where "db_get_dish st i = Some d"
    using assms find_dish_id_None [of i "dishes st"] by (auto simp: db_get_dish_def)
  then show ?thesis by (simp add: patch_dish_def)
qed

lemma updateDishImage_generating:
  assumes "did \<in> dish_id ` set (dishes st)"
  shows "updateDishImage did IGenerating None None None None None st =
           Inr (st\<lparr>dishes := map (\<lambda>d. if dish_id d = did then d\<lparr>imageStatus := IGenerating\<rparr> else d)
                              (dishes st)\<rparr>, ())"
  by (simp add: updateDishImage_def dishImage_updates_def patch_dish_result [OF assms])

lemma updateDishImage_failed:
  assumes "did \<in> dish_id ` set (dishes st)"
  shows "updateDishImage did IFailed None None None None (Some m) st =
           Inr (st\<lparr>dishes := map (\<lambda>d. if dish_id d = did
                                       then d\<lparr>imageStatus := IFailed, imageError := Some m\<rparr> else d)
                              (dishes st)\<rparr>, ())"
  by (simp add: updateDishImage_def dishImage_updates_def patch_dish_result [OF assms] Let_def)

lemma updateDishImage_completed:
  assumes "did \<in> dish_id ` set (dishes st)"
  shows "updateDishImage did ICompleted (Some sto) (Some u) (Some p) (Some k) None st =
           Inr (st\<lparr>dishes := map (\<lambda>d. if dish_id d = did
                                       then d\<lparr>imageStatus := ICompleted, dish_imageStorageId := Some sto,
                                              dish_imageUrl := Some u, imageProvider := Some p,
                                              imageCostUsd := Some k,
                                              imageGeneratedAt := Some (now st)\<rparr> else d)
                              (dishes st)\<rparr>, ())"
  by (simp add: updateDishImage_def dishImage_updates_def patch_dish_result [OF assms] Let_def)

lemma runMutation_Inr:
  "m (db c) = Inr (st', r) \<Longrightarrow> runMutation m c = (c\<lparr>db := st', committed := committed c @ [st']\<rparr>, Inr r)"
  by (simp add: runMutation_def)

lemma updateScanStatus_result:
  assumes "menuScans st sid = Some s"
  shows "updateScanStatus sid v (Some m) None st =
           Inr (st\<lparr>menuScans := (menuScans st)(sid \<mapsto>
                  (if v = Completed
                   then s\<lparr>status := v, statusMessage := Some m, completedAt := Some (now st)\<rparr>
                   else s\<lparr>status := v, statusMessage := Some m\<rparr>))\<rparr>, ())"
  using assms by (simp add: updateScanStatus_def scanStatus_updates_def patch_scan_def Let_def)

lemma updateScanProgress_generated:
  assumes "menuScans st sid = Some s"
  shows "updateScanProgress sid None None (Some g) None None None None st =
           Inr (st\<lparr>menuScans := (menuScans st)(sid \<mapsto> s\<lparr>imagesGenerated := g\<rparr>)\<rparr>, ())"
  using assms by (simp add: updateScanProgress_def scanProgress_updates_def patch_scan_def Let_def)

lemma updateScanProgress_generated_cost:
  assumes "menuScans st sid = Some s"
  shows "updateScanProgress sid None None (Some g) None None (Some k) None st =
           Inr (st\<lparr>menuScans := (menuScans st)(sid \<mapsto>
                  (if k \<noteq> 0 then s\<lparr>imagesGenerated := g, actualCostUsd := actualCostUsd s + k\<rparr>
                   else s\<lparr>imagesGenerated := g\<rparr>))\<rparr>, ())"
  using assms by (simp add: updateScanProgress_def scanProgress_updates_def patch_scan_def Let_def)

section \<open>A failed generation\<close>

lemma generateDishImage_catch_result:
  assumes "did \<in> dish_id ` set (dishes (db c))" and "menuScans (db c) sid = Some s"
  shows "generateDishImage_catch did sid e c =
     (let st1 = (db c)\<lparr>dishes := map (\<lambda>d. if dish_id d = did
                   then d\<lparr>imageStatus := IFailed, imageError := Some (error_message e)\<rparr> else d)
                   (dishes (db c))\<rparr>;
          st2 = st1\<lparr>menuScans := (menuScans st1)(sid \<mapsto> s\<lparr>imagesGenerated := imagesGenerated s + 1\<rparr>)\<rparr>;
          st3 = st2\<lparr>menuScans := (menuScans st2)(sid \<mapsto>
                   s\<lparr>imagesGenerated := imagesGenerated s + 1, status := Completed,
                     statusMessage := Some ''Processing complete (some images failed)'',
                     completedAt := Some (now (db c))\<rparr>)\<rparr>
      in if imagesGenerated s + 1 \<ge> imagesRequested s
         then (c\<lparr>db := st3, committed := committed c @ [st1, st2, st3]\<rparr>, Inr ())
         else (c\<lparr>db := st2, committed := committed c @ [st1, st2]\<rparr>, Inr ()))"
  using assms(2)
  by (simp add: generateDishImage_catch_def bindA_def runMutation_def
      updateDishImage_failed [OF assms(1)] getScan_def updateScanProgress_def
      updateScanStatus_def scanProgress_updates_def scanStatus_updates_def patch_scan_def
      Let_def returnA_def)


lemma map_patch_ids:
  assumes "\<And>d. dish_id (f d) = dish_id d"
  shows "dish_id ` set (map (\<lambda>d. if dish_id d = i then f d else d) ds) = dish_id ` set ds"
proof -
  have "map dish_id (map (\<lambda>d. if dish_id d = i then f d else d) ds) = map dish_id ds"
    by (induction ds) (simp_all add: assms)
  then show ?thesis
    by (metis set_map)
qed

lemma map_patch_twice:
  assumes "\<And>d. dish_id (f d) = dish_id d"
  shows "map (\<lambda>d. if dish_id d = i then g d else d) (map (\<lambda>d. if dish_id d = i then f d else d) ds) =
         map (\<lambda>d. if dish_id d = i then g (f d) else d) ds"
  by (induction ds) (simp_all add: assms)

lemma callImageAPI_valid:
  assumes "isValidProvider provider"
  shows "callImageAPI cfg env n t provider c =
           (c\<lparr>imageCalls := imageCalls c @ [(provider, n, t)]\<rparr>,
            case image_api env of
              Inl e \<Rightarrow> Inl e
            | Inr url \<Rightarrow> Inr (url, if provider = ''openai'' then IMAGE_OPENAI (COSTS cfg)
                                    else IMAGE_NANO_BANANA (COSTS cfg)))"
  using assms by (auto simp: callImageAPI_def isValidProvider_def split: sum.splits)

lemma generateDishImage_try_failure:
  assumes "find (\<lambda>d. dish_id d = did) (getDishesForScan (db c) sid) = Some dish"
    and "isValidProvider provider"
    and "image_api env = Inl e \<or> (\<exists>u. image_api env = Inr u) \<and> image_store env = Inl e"
  shows "generateDishImage_try cfg env did sid provider c =
     (let st1 = (db c)\<lparr>dishes := map (\<lambda>d. if dish_id d = did then d\<lparr>imageStatus := IGenerating\<rparr> else d)
                   (dishes (db c))\<rparr>
      in (c\<lparr>db := st1, committed := committed c @ [st1],
            imageCalls := imageCalls c @ [(provider, name dish, prompt_description dish)]\<rparr>, Inl e))"
  using assms(3)
  by (auto simp: generateDishImage_try_def generateDishImage_found_def assms(1) bindA_def
      runMutation_def throwA_def Let_def
      updateDishImage_generating [OF getDishesForScan_found [OF assms(1)]]
      callImageAPI_valid [OF assms(2)])


text \<open>
  Claim C6. When the generation for a dish of the scan throws (the provider's call
  fails, or the fetch and storage of the image fail), the worker still returns
  normally: the dish is \<open>failed\<close> with the message of the error, \<open>imagesGenerated\<close> of
  the scan is one more and \<open>actualCostUsd\<close> is what it was; if the new count has
  reached \<open>imagesRequested\<close> the scan is \<open>completed\<close> with the status message
  \<open>Processing complete (some images failed)\<close>, and otherwise its status is unchanged.
\<close>

theorem generateDishImage_failure:
  assumes "find (\<lambda>d. dish_id d = did) (getDishesForScan (db c) sid) = Some dish"
    and "menuScans (db c) sid = Some s"
    and "isValidProvider provider"
    and "image_api env = Inl e \<or> (\<exists>u. image_api env = Inr u) \<and> image_store env = Inl e"
  shows "let c' = fst (generateDishImage cfg env did sid provider c) in
         snd (generateDishImage cfg env did sid provider c) = Inr () \<and>
         dishes (db c') =
           map (\<lambda>d. if dish_id d = did
                     then d\<lparr>imageStatus := IFailed, imageError := Some (error_message e)\<rparr> else d)
             (dishes (db c)) \<and>
         map_option imagesGenerated (menuScans (db c') sid) = Some (imagesGenerated s + 1) \<and>
         map_option actualCostUsd (menuScans (db c') sid) = Some (actualCostUsd s) \<and>
         (imagesGenerated s + 1 \<ge> imagesRequested s \<longrightarrow>
            map_option status (menuScans (db c') sid) = Some Completed \<and>
            map_option statusMessage (menuScans (db c') sid) =
              Some (Some ''Processing complete (some images failed)'')) \<and>
         (imagesGenerated s + 1 < imagesRequested s \<longrightarrow>
            map_option status (menuScans (db c') sid) = Some (status s))"
proof -
  let ?st1 = "(db c)\<lparr>dishes := map (\<lambda>d. if dish_id d = did then d\<lparr>imageStatus := IGenerating\<rparr> else d)
                   (dishes (db c))\<rparr>"
  let ?c1 = "c\<lparr>db := ?st1, committed := committed c @ [?st1],
               imageCalls := imageCalls c @ [(provider, name dish, prompt_description dish)]\<rparr>"
  have t: "generateDishImage_try cfg env did sid provider c = (?c1, Inl e)"
    using generateDishImage_try_failure [OF assms(1,3,4)] by (simp add: Let_def)
  have ids: "did \<in> dish_id ` set (dishes (db ?c1))"
    using getDishesForScan_found [OF assms(1)] by (simp add: map_patch_ids del: set_map)
  have sc: "menuScans (db ?c1) sid = Some s"
    using assms(2) by simp
  have g: "generateDishImage cfg env did sid provider c = generateDishImage_catch did sid e ?c1"
    by (simp add: generateDishImage_def tryCatch_def t)
  show ?thesis
    unfolding g generateDishImage_catch_result [OF ids sc]
    by (simp add: Let_def map_patch_twice)
qed


theorem generateDishImage_failure_witness:
  "find (\<lambda>d. dish_id d = 4) (getDishesForScan (db ctx_failed_example) 0) =
     Some (dish_example 4 3 IQueued) \<and>
   map_option imagesGenerated (menuScans (db ctx_failed_example) 0) = Some 3 \<and>
   map_option imagesRequested (menuScans (db ctx_failed_example) 0) = Some 4 \<and>
   map_option actualCostUsd (menuScans (db ctx_failed_example) 0) = Some (3 / 100) \<and>
   isValidProvider ''openai'' \<and>
   image_api env_failing = Inl (Error ''OpenAI Image API error: rate limit'') \<and>
   (let c' = fst (generateDishImage CONFIG env_failing 4 0 ''openai'' ctx_failed_example) in
    map (\<lambda>d. (imageStatus d, imageError d)) (dishes (db c')) =
      [(ICompleted, None), (IFailed, None), (IFailed, None),
       (IFailed, Some ''OpenAI Image API error: rate limit'')] \<and>
    map_option imagesGenerated (menuScans (db c') 0) = Some 4 \<and>
    map_option actualCostUsd (menuScans (db c') 0) = Some (3 / 100) \<and>
    map_option status (menuScans (db c') 0) = Some Completed \<and>
    map_option statusMessage (menuScans (db c') 0) =
      Some (Some ''Processing complete (some images failed)''))"
proof -
  let ?s = "scan_example\<lparr>imagesGenerated := 3\<rparr>"
  let ?e = "Error ''OpenAI Image API error: rate limit''"
  have h1: "find (\<lambda>d. dish_id d = 4) (getDishesForScan (db ctx_failed_example) 0) =
              Some (dish_example 4 3 IQueued)"
    by (simp add: ctx_failed_example_def store_failed_example_def getDishesForScan_def
        by_scanId_order_def by_scanId_def dish_example_def)
  have h2: "menuScans (db ctx_failed_example) 0 = Some ?s"
    by (simp add: ctx_failed_example_def store_failed_example_def)
  have h3: "isValidProvider ''openai''"
    by (simp add: isValidProvider_def)
  have h4: "image_api env_failing = Inl ?e \<or>
            (\<exists>u. image_api env_failing = Inr u) \<and> image_store env_failing = Inl ?e"
    by (simp add: env_failing_def)
  have ds: "dishes (db ctx_failed_example) =
              [dish_example 1 0 ICompleted, dish_example 2 1 IFailed,
               dish_example 3 2 IFailed, dish_example 4 3 IQueued]"
    by (simp add: ctx_failed_example_def store_failed_example_def)
  have v: "imagesGenerated ?s = 3" "imagesRequested ?s = 4" "actualCostUsd ?s = 3 / 100"
    by (simp_all add: scan_example_def)
  show ?thesis
    using generateDishImage_failure [OF h1 h2 h3 h4, of CONFIG] h1 h3
    unfolding Let_def ds h2 v
    by (simp add: dish_example_def scan_example_def error_message_def env_failing_def
        del: map_option_eq_Some)
qed

lemma generateDishImage_success:
  assumes "find (\<lambda>d. dish_id d = did) (getDishesForScan (db c) sid) = Some dish"
    and "menuScans (db c) sid = Some s"
    and "isValidProvider provider"
    and "image_api env = Inr u" and "image_store env = Inr (sto, su)"
  shows "generateDishImage cfg env did sid provider c =
     (let k = (if provider = ''openai'' then IMAGE_OPENAI (COSTS cfg)
               else IMAGE_NANO_BANANA (COSTS cfg));
          st1 = (db c)\<lparr>dishes := map (\<lambda>d. if dish_id d = did then d\<lparr>imageStatus := IGenerating\<rparr> else d)
                   (dishes (db c))\<rparr>;
          st2 = (db c)\<lparr>dishes := map (\<lambda>d. if dish_id d = did
                   then d\<lparr>imageStatus := ICompleted, dish_imageStorageId := Some sto,
                          dish_imageUrl := Some su, imageProvider := Some provider,
                          imageCostUsd := Some k, imageGeneratedAt := Some (now (db c))\<rparr> else d)
                   (dishes (db c))\<rparr>;
          s3 = s\<lparr>imagesGenerated := imagesGenerated s + 1, actualCostUsd := actualCostUsd s + k\<rparr>;
          st3 = st2\<lparr>menuScans := (menuScans (db c))(sid \<mapsto> s3)\<rparr>;
          st4 = st2\<lparr>menuScans := (menuScans (db c))(sid \<mapsto>
                   s3\<lparr>status := Completed, statusMessage := Some ''All images generated!'',
                      completedAt := Some (now (db c))\<rparr>)\<rparr>;
          calls = imageCalls c @ [(provider, name dish, prompt_description dish)]
      in if imagesGenerated s + 1 \<ge> imagesRequested s
         then (c\<lparr>db := st4, committed := committed c @ [st1, st2, st3, st4], imageCalls := calls\<rparr>, Inr ())
         else (c\<lparr>db := st3, committed := committed c @ [st1, st2, st3], imageCalls := calls\<rparr>, Inr ()))"
proof -
  have ids: "did \<in> dish_id ` set (dishes (db c))"
    by (rule getDishesForScan_found [OF assms(1)])
  have ids': "did \<in> dish_id ` set (map (\<lambda>d. if dish_id d = did then d\<lparr>imageStatus := IGenerating\<rparr> else d)
                   (dishes (db c)))"
    using ids by (simp add: map_patch_ids del: set_map)
  show ?thesis
    using assms(2,4,5) ids'
    by (simp add: generateDishImage_def tryCatch_def generateDishImage_try_def
        generateDishImage_found_def assms(1) bindA_def
        runMutation_def throwA_def returnA_def Let_def getScan_def
        updateDishImage_generating [OF ids] updateDishImage_completed
        callImageAPI_valid [OF assms(3)] map_patch_twice
        updateScanProgress_def updateScanStatus_def scanProgress_updates_def
        scanStatus_updates_def patch_scan_def del: set_map)
qed


section \<open>The worker makes no check of the image status\<close>

text \<open>
  Whatever the provider and the storage answer, the first state that the worker
  commits has the dish \<open>generating\<close>, and the provider is called once.
\<close>

lemma generateDishImage_starts:
  assumes "find (\<lambda>d. dish_id d = did) (getDishesForScan (db c) sid) = Some dish"
    and "menuScans (db c) sid = Some s"
    and "isValidProvider provider"
  shows "dishes (committed (fst (generateDishImage cfg env did sid provider c)) ! length (committed c)) =
           map (\<lambda>d. if dish_id d = did then d\<lparr>imageStatus := IGenerating\<rparr> else d)
             (dishes (db c)) \<and>
         imageCalls (fst (generateDishImage cfg env did sid provider c)) =
           imageCalls c @ [(provider, name dish, prompt_description dish)]"
proof -
  consider (fails) e where "image_api env = Inl e \<or>
                             (\<exists>u. image_api env = Inr u) \<and> image_store env = Inl e"
    | (answers) u sto su where "image_api env = Inr u" "image_store env = Inr (sto, su)"
  proof (cases "image_api env")
    case (Inl e)
    then show ?thesis using fails by blast
  next
    case (Inr u)
    show ?thesis
    proof (cases "image_store env")
      case (Inl e)
      then show ?thesis using Inr fails by blast
    next
      case r: (Inr p)
      then show ?thesis using Inr answers [of u "fst p" "snd p"] by simp
    qed
  qed
  then show ?thesis
  proof cases
    case fails
    let ?st1 = "(db c)\<lparr>dishes := map (\<lambda>d. if dish_id d = did then d\<lparr>imageStatus := IGenerating\<rparr> else d)
                     (dishes (db c))\<rparr>"
    let ?c1 = "c\<lparr>db := ?st1, committed := committed c @ [?st1],
                 imageCalls := imageCalls c @ [(provider, name dish, prompt_description dish)]\<rparr>"
    have t: "generateDishImage_try cfg env did sid provider c = (?c1, Inl e)"
      using generateDishImage_try_failure [OF assms(1,3) fails] by (simp add: Let_def)
    have ids: "did \<in> dish_id ` set (dishes (db ?c1))"
      using getDishesForScan_found [OF assms(1)] by (simp add: map_patch_ids del: set_map)
    have sc: "menuScans (db ?c1) sid = Some s"
      using assms(2) by simp
    have g: "generateDishImage cfg env did sid provider c = generateDishImage_catch did sid e ?c1"
      by (simp add: generateDishImage_def tryCatch_def t)
    show ?thesis
      unfolding g generateDishImage_catch_result [OF ids sc]
      by (simp add: Let_def nth_append)
  next
    case answers
    show ?thesis
      unfolding generateDishImage_success [OF assms answers]
      by (simp add: Let_def nth_append)
  qed
qed

text \<open>
  Claim C3, as amended. The claim says that the worker rejects a dish that is already
  \<open>completed\<close> or \<open>generating\<close> and leaves everything unchanged. The worker reads the
  dish and never looks at its image status: on every dish of the scan, whatever its
  image status, with a valid provider, in every run it sets the dish to \<open>generating\<close>
  (the first state it commits) and calls the provider; when the provider and the
  storage answer, it marks the dish \<open>completed\<close> with the new image, provider and
  cost, and adds one to \<open>imagesGenerated\<close> and the cost to \<open>actualCostUsd\<close>. The
  rejection of the dishes that are \<open>completed\<close>, \<open>generating\<close> or \<open>queued\<close> is in
  \<open>queueSingleDishImage\<close>, before a job is scheduled: on such a dish it returns a
  result that is not queued and the store as it was, and \<open>generateSingleDishImage\<close>
  schedules nothing.
\<close>

theorem generateDishImage_no_guard:
  assumes "find (\<lambda>d. dish_id d = did) (getDishesForScan (db c) sid) = Some dish"
    and "menuScans (db c) sid = Some s"
    and "isValidProvider provider"
  shows "let c' = fst (generateDishImage cfg env did sid provider c);
             k = (if provider = ''openai'' then IMAGE_OPENAI (COSTS cfg)
                  else IMAGE_NANO_BANANA (COSTS cfg)) in
         dishes (committed c' ! length (committed c)) =
           map (\<lambda>d. if dish_id d = did then d\<lparr>imageStatus := IGenerating\<rparr> else d)
             (dishes (db c)) \<and>
         imageCalls c' = imageCalls c @ [(provider, name dish, prompt_description dish)] \<and>
         (image_api env = Inr u \<and> image_store env = Inr (sto, su) \<longrightarrow>
            snd (generateDishImage cfg env did sid provider c) = Inr () \<and>
            dishes (db c') =
              map (\<lambda>d. if dish_id d = did
                        then d\<lparr>imageStatus := ICompleted, dish_imageStorageId := Some sto,
                               dish_imageUrl := Some su, imageProvider := Some provider,
                               imageCostUsd := Some k, imageGeneratedAt := Some (now (db c))\<rparr>
                        else d)
                (dishes (db c)) \<and>
            map_option imagesGenerated (menuScans (db c') sid) = Some (imagesGenerated s + 1) \<and>
            map_option actualCostUsd (menuScans (db c') sid) = Some (actualCostUsd s + k)) \<and>
         (db_get_dish (db cq) qid = Some qd \<and>
          (imageStatus qd = ICompleted \<or> imageStatus qd = IGenerating \<or>
           imageStatus qd = IQueued) \<longrightarrow>
            queueSingleDishImage cfg qid (db cq) =
              Inr (db cq, Single_not_queued ''Image already generated or in progress'') \<and>
            db (fst (generateSingleDishImage cfg qid p cq)) = db cq \<and>
            scheduled (fst (generateSingleDishImage cfg qid p cq)) = scheduled cq \<and>
            snd (generateSingleDishImage cfg qid p cq) =
              Inr (False, ''Image already generated or in progress''))"
proof -
  have a: "dishes (committed (fst (generateDishImage cfg env did sid provider c)) ! length (committed c)) =
             map (\<lambda>d. if dish_id d = did then d\<lparr>imageStatus := IGenerating\<rparr> else d)
               (dishes (db c)) \<and>
           imageCalls (fst (generateDishImage cfg env did sid provider c)) =
             imageCalls c @ [(provider, name dish, prompt_description dish)]"
    by (rule generateDishImage_starts [OF assms])
  have b: "snd (generateDishImage cfg env did sid provider c) = Inr () \<and>
           dishes (db (fst (generateDishImage cfg env did sid provider c))) =
             map (\<lambda>d. if dish_id d = did
                       then d\<lparr>imageStatus := ICompleted, dish_imageStorageId := Some sto,
                              dish_imageUrl := Some su, imageProvider := Some provider,
                              imageCostUsd := Some (if provider = ''openai''
                                 then IMAGE_OPENAI (COSTS cfg) else IMAGE_NANO_BANANA (COSTS cfg)),
                              imageGeneratedAt := Some (now (db c))\<rparr>
                       else d)
               (dishes (db c)) \<and>
           map_option imagesGenerated
             (menuScans (db (fst (generateDishImage cfg env did sid provider c))) sid) =
               Some (imagesGenerated s + 1) \<and>
           map_option actualCostUsd
             (menuScans (db (fst (generateDishImage cfg env did sid provider c))) sid) =
               Some (actualCostUsd s +
                 (if provider = ''openai'' then IMAGE_OPENAI (COSTS cfg)
                  else IMAGE_NANO_BANANA (COSTS cfg)))"
    if "image_api env = Inr u" "image_store env = Inr (sto, su)"
    unfolding generateDishImage_success [OF assms that]
    by (simp add: Let_def)
  have q: "queueSingleDishImage cfg qid (db cq) =
             Inr (db cq, Single_not_queued ''Image already generated or in progress'') \<and>
           db (fst (generateSingleDishImage cfg qid p cq)) = db cq \<and>
           scheduled (fst (generateSingleDishImage cfg qid p cq)) = scheduled cq \<and>
           snd (generateSingleDishImage cfg qid p cq) =
             Inr (False, ''Image already generated or in progress'')"
    if "db_get_dish (db cq) qid = Some qd"
      "imageStatus qd = ICompleted \<or> imageStatus qd = IGenerating \<or> imageStatus qd = IQueued"
  proof -
    have "queueSingleDishImage cfg qid (db cq) =
            Inr (db cq, Single_not_queued ''Image already generated or in progress'')"
      using that by (auto simp: queueSingleDishImage_def)
    then show ?thesis
      by (simp add: generateSingleDishImage_def Let_def bindA_def runMutation_def returnA_def)
  qed
  show ?thesis
    unfolding Let_def using a b q by blast
qed

theorem generateDishImage_no_guard_witness:
  "find (\<lambda>d. dish_id d = 1) (getDishesForScan (db ctx_example) 0) =
     Some (dish_example 1 0 ICompleted) \<and>
   imageStatus (dish_example 1 0 ICompleted) = ICompleted \<and>
   isValidProvider ''openai'' \<and>
   image_api env_ok = Inr ''http://provider/image.png'' \<and>
   image_store env_ok = Inr (9, ''http://storage/9'') \<and>
   db_get_dish (db ctx_example) 2 = Some (dish_example 2 1 IQueued) \<and>
   imageStatus (dish_example 2 1 IQueued) = IQueued \<and>
   map_option imagesGenerated (menuScans (db ctx_example) 0) = Some 1 \<and>
   map_option actualCostUsd (menuScans (db ctx_example) 0) = Some (3 / 100) \<and>
   (let c' = fst (generateDishImage CONFIG env_ok 1 0 ''openai'' ctx_example) in
    map imageStatus (dishes (committed c' ! 0)) = [IGenerating, IQueued, IGenerating, IQueued] \<and>
    imageCalls c' = [(''openai'', ''Soup'', ''Delicious dish'')] \<and>
    map imageStatus (dishes (db c')) = [ICompleted, IQueued, IGenerating, IQueued] \<and>
    map dish_imageUrl (dishes (db c')) = [Some ''http://storage/9'', None, None, None] \<and>
    map_option imagesGenerated (menuScans (db c') 0) = Some 2 \<and>
    map_option actualCostUsd (menuScans (db c') 0) = Some (5 / 100)) \<and>
   queueSingleDishImage CONFIG 2 (db ctx_example) =
     Inr (db ctx_example, Single_not_queued ''Image already generated or in progress'') \<and>
   scheduled (fst (generateSingleDishImage CONFIG 2 None ctx_example)) = [] \<and>
   snd (generateSingleDishImage CONFIG 2 None ctx_example) =
     Inr (False, ''Image already generated or in progress'')"
proof -
  have h1: "find (\<lambda>d. dish_id d = 1) (getDishesForScan (db ctx_example) 0) =
              Some (dish_example 1 0 ICompleted)"
    by (simp add: ctx_example_def store_example_def getDishesForScan_def
        by_scanId_order_def by_scanId_def dish_example_def)
  have h2: "menuScans (db ctx_example) 0 = Some scan_example"
    by (simp add: ctx_example_def store_example_def)
  have h3: "isValidProvider ''openai''"
    by (simp add: isValidProvider_def)
  have h4: "image_api env_ok = Inr ''http://provider/image.png''"
    and h5: "image_store env_ok = Inr (9, ''http://storage/9'')"
    by (simp_all add: env_ok_def)
  have h6: "db_get_dish (db ctx_example) 2 = Some (dish_example 2 1 IQueued)"
    by (simp add: ctx_example_def store_example_def db_get_dish_def dish_example_def)
  have h7: "imageStatus (dish_example 2 1 IQueued) = IQueued"
    "imageStatus (dish_example 1 0 ICompleted) = ICompleted"
    by (simp_all add: dish_example_def)
  have ds: "dishes (db ctx_example) =
              [dish_example 1 0 ICompleted, dish_example 2 1 IQueued,
               dish_example 3 2 IGenerating, dish_example 4 3 IQueued]"
    and cm: "committed ctx_example = []" and ic: "imageCalls ctx_example = []"
    and sd: "scheduled ctx_example = []"
    by (simp_all add: ctx_example_def store_example_def)
  have v: "imagesGenerated scan_example = 1" "actualCostUsd scan_example = 3 / 100"
    by (simp_all add: scan_example_def)
  have "let c' = fst (generateDishImage CONFIG env_ok 1 0 ''openai'' ctx_example) in
    map imageStatus (dishes (committed c' ! 0)) = [IGenerating, IQueued, IGenerating, IQueued] \<and>
    imageCalls c' = [(''openai'', ''Soup'', ''Delicious dish'')] \<and>
    map imageStatus (dishes (db c')) = [ICompleted, IQueued, IGenerating, IQueued] \<and>
    map dish_imageUrl (dishes (db c')) = [Some ''http://storage/9'', None, None, None] \<and>
    map_option imagesGenerated (menuScans (db c') 0) = Some 2 \<and>
    map_option actualCostUsd (menuScans (db c') 0) = Some (5 / 100) \<and>
    queueSingleDishImage CONFIG 2 (db ctx_example) =
      Inr (db ctx_example, Single_not_queued ''Image already generated or in progress'') \<and>
    scheduled (fst (generateSingleDishImage CONFIG 2 None ctx_example)) = [] \<and>
    snd (generateSingleDishImage CONFIG 2 None ctx_example) =
      Inr (False, ''Image already generated or in progress'')"
    using generateDishImage_no_guard [OF h1 h2 h3,
        of CONFIG env_ok "''http://provider/image.png''" 9 "''http://storage/9''"
           ctx_example 2 "dish_example 2 1 IQueued" None]
      h4 h5 h6 h7(1)
    unfolding Let_def ds h2 v cm ic sd
    by (simp add: dish_example_def scan_example_def CONFIG_def prompt_description_def
        del: map_option_eq_Some)
  then show ?thesis
    using h1 h2 h3 h4 h5 h6 h7 v by (simp add: Let_def)
qed

text \<open>
  The counterexample to claim C3 as stated: the worker run on dish 1 of the example,
  which is \<open>completed\<close>, sets it to \<open>generating\<close>, calls the provider and changes the
  database; the scan counts a second generated image.
\<close>

theorem generateDishImage_guard_counterexample:
  "map imageStatus (dishes (db ctx_example)) = [ICompleted, IQueued, IGenerating, IQueued] \<and>
   map imageStatus (dishes (committed (fst (generateDishImage CONFIG env_ok 1 0 ''openai'' ctx_example)) ! 0))
     = [IGenerating, IQueued, IGenerating, IQueued] \<and>
   imageCalls ctx_example = [] \<and>
   imageCalls (fst (generateDishImage CONFIG env_ok 1 0 ''openai'' ctx_example))
     = [(''openai'', ''Soup'', ''Delicious dish'')] \<and>
   db (fst (generateDishImage CONFIG env_ok 1 0 ''openai'' ctx_example)) \<noteq> db ctx_example \<and>
   map_option imagesGenerated (menuScans (db ctx_example) 0) = Some 1 \<and>
   map_option imagesGenerated
     (menuScans (db (fst (generateDishImage CONFIG env_ok 1 0 ''openai'' ctx_example))) 0) = Some 2"
proof -
  have h1: "find (\<lambda>d. dish_id d = 1) (getDishesForScan (db ctx_example) 0) =
              Some (dish_example 1 0 ICompleted)"
    by (simp add: ctx_example_def store_example_def getDishesForScan_def
        by_scanId_order_def by_scanId_def dish_example_def)
  have h2: "menuScans (db ctx_example) 0 = Some scan_example"
    by (simp add: ctx_example_def store_example_def)
  have h3: "isValidProvider ''openai''"
    by (simp add: isValidProvider_def)
  have h4: "image_api env_ok = Inr ''http://provider/image.png''"
    and h5: "image_store env_ok = Inr (9, ''http://storage/9'')"
    by (simp_all add: env_ok_def)
  have ds: "dishes (db ctx_example) =
              [dish_example 1 0 ICompleted, dish_example 2 1 IQueued,
               dish_example 3 2 IGenerating, dish_example 4 3 IQueued]"
    and cm: "committed ctx_example = []" and ic: "imageCalls ctx_example = []"
    by (simp_all add: ctx_example_def store_example_def)
  have v: "imagesGenerated scan_example = 1" "imagesRequested scan_example = 4"
    by (simp_all add: scan_example_def)
  have neq: "db (fst (generateDishImage CONFIG env_ok 1 0 ''openai'' ctx_example)) \<noteq> db ctx_example"
  proof
    assume "db (fst (generateDishImage CONFIG env_ok 1 0 ''openai'' ctx_example)) = db ctx_example"
    then have "map_option imagesGenerated
        (menuScans (db (fst (generateDishImage CONFIG env_ok 1 0 ''openai'' ctx_example))) 0) = Some 1"
      by (simp add: h2 v)
    then show False
      unfolding generateDishImage_success [OF h1 h2 h3 h4 h5] by (simp add: Let_def v)
  qed
  show ?thesis
    using neq unfolding generateDishImage_success [OF h1 h2 h3 h4 h5] Let_def ds h2 v cm ic
    by (simp add: dish_example_def scan_example_def prompt_description_def
        del: map_option_eq_Some)
qed

section \<open>Facts about the creation of the dishes\<close>

lemma insert_dishes_Nil [simp]: "insert_dishes st [] = st"
  by (simp add: insert_dishes_def)

lemma insert_dishes_twice: "insert_dishes (insert_dishes st xs) ys = insert_dishes st (xs @ ys)"
  by (simp add: insert_dishes_def)

lemma insert_dishes_fields [simp]:
  "menuScans (insert_dishes st ds) = menuScans st"
  "now (insert_dishes st ds) = now st"
  "nextId (insert_dishes st ds) = nextId st + length ds"
  "dishes (insert_dishes st ds) = dishes st @ ds"
  by (simp_all add: insert_dishes_def)

lemma insert_dishes_menuScans_update:
  "insert_dishes (st\<lparr>menuScans := m\<rparr>) ds = (insert_dishes st ds)\<lparr>menuScans := m\<rparr>"
  by (simp add: insert_dishes_def)

lemma insert_commits_append:
  "insert_commits st (xs @ ys) = insert_commits st xs @ insert_commits (insert_dishes st xs) ys"
  by (induction xs arbitrary: st) (simp_all add: insert_dishes_twice)

lemma length_insert_commits [simp]: "length (insert_commits st ds) = length ds"
  by (induction ds arbitrary: st) simp_all

lemma status_trace_insert_commits:
  "menuScans st sid = Some s \<Longrightarrow>
   status_trace sid (insert_commits st ds) = replicate (length ds) (status s)"
  by (induction ds arbitrary: st) (simp_all add: status_trace_def List.map_filter_simps)

lemma new_dishes_append:
  "new_dishes cfg sid t i ord (xs @ ys) =
     new_dishes cfg sid t i ord xs @
     new_dishes cfg sid t (i + length xs) (ord + int (length xs)) ys"
  by (induction xs arbitrary: i ord) (auto simp: add.assoc)

lemma length_new_dishes [simp]: "length (new_dishes cfg sid t i ord xs) = length xs"
  by (induction xs arbitrary: i ord) auto

lemma createDish_result:
  "createDish sid (item_name item) (item_description item) (item_price item) sec ord
     (if ord < AUTO_IMAGE_LIMIT cfg then IQueued else IPending) st =
   Inr (insert_dishes st [new_dish cfg sid (now st) (nextId st) ord sec item], nextId st)"
  by (simp add: createDish_def insert_dishes_def new_dish_def)

lemma create_items_result:
  "create_items cfg sid sec its (ord, ids) c =
     (let nd = new_dishes cfg sid (now (db c)) (nextId (db c)) ord (map (Pair sec) its)
      in (c\<lparr>db := insert_dishes (db c) nd,
            committed := committed c @ insert_commits (db c) nd\<rparr>,
          Inr (ord + int (length its),
               ids @ map dish_id (filter (\<lambda>d. imageStatus d = IQueued) nd))))"
proof (induction its arbitrary: ord ids c)
  case Nil
  then show ?case by simp
next
  case (Cons item rest)
  show ?case
    by (simp add: Let_def runMutation_def createDish_result Cons.IH insert_dishes_twice new_dish_def
        del: insert_dishes_Nil)
qed


lemma create_sections_result:
  "create_sections cfg sid secs (ord, ids) c =
     (let flat = concat (map (\<lambda>sec. map (Pair (Some (section_name sec))) (items sec)) secs);
          nd = new_dishes cfg sid (now (db c)) (nextId (db c)) ord flat
      in (c\<lparr>db := insert_dishes (db c) nd,
            committed := committed c @ insert_commits (db c) nd\<rparr>,
          Inr (ord + int (length flat),
               ids @ map dish_id (filter (\<lambda>d. imageStatus d = IQueued) nd))))"
proof (induction secs arbitrary: ord ids c)
  case Nil
  then show ?case by simp
next
  case (Cons sec rest)
  show ?case
    by (simp add: Let_def create_items_result Cons.IH new_dishes_append insert_commits_append
        insert_dishes_twice add.assoc)
qed

lemma schedule_images_result:
  "schedule_images ids sid p c =
     (c\<lparr>scheduled := scheduled c @ map (\<lambda>i. Job_generateDishImage i sid p) ids\<rparr>, Inr ())"
  by (induction ids arbitrary: c) (simp_all add: runAfter_def)

lemma count_dishes_flatten: "count_dishes menuData = int (length (flatten_menu menuData))"
proof -
  have "foldl (\<lambda>t sec. t + int (length (items sec))) a secs =
        a + int (length (concat (map (\<lambda>sec. map (Pair (Some (section_name sec))) (items sec)) secs)))"
    for a and secs :: "MenuSection list"
    by (induction secs arbitrary: a) simp_all
  then show ?thesis
    by (simp add: count_dishes_def flatten_menu_def Let_def split: option.splits)
qed

lemma displayOrder_new_dishes:
  "map displayOrder (new_dishes cfg sid t i ord xs) = map (\<lambda>k. ord + int k) [0..<length xs]"
proof (induction xs arbitrary: i ord)
  case Nil
  then show ?case by simp
next
  case (Cons x xs)
  obtain sec item where x: "x = (sec, item)" by (cases x)
  have "map (\<lambda>k. ord + int k) [0..<Suc (length xs)] =
        ord # map (\<lambda>k. ord + 1 + int k) [0..<length xs]"
    by (simp add: upt_conv_Cons map_Suc_upt [symmetric] del: upt_Suc)
  then show ?case
    by (simp add: x Cons.IH new_dish_def)
qed

lemma imageStatus_new_dishes:
  "d \<in> set (new_dishes cfg sid t i ord xs) \<Longrightarrow>
   imageStatus d = (if displayOrder d < AUTO_IMAGE_LIMIT cfg then IQueued else IPending)"
  by (induction xs arbitrary: i ord) (auto simp: new_dish_def)

lemma dish_id_new_dishes:
  "map dish_id (new_dishes cfg sid t i ord xs) = [i..<i + length xs]"
proof (induction xs arbitrary: i ord)
  case Nil
  then show ?case by simp
next
  case (Cons x xs)
  obtain sec item where x: "x = (sec, item)" by (cases x)
  show ?case
    by (simp add: x Cons.IH new_dish_def upt_conv_Cons del: upt_Suc)
qed


section \<open>Facts about the updates of a scan\<close>

lemma scanStatus_updates_fields [simp]:
  "status (scanStatus_updates t v m e s) = v"
  "imagesGenerated (scanStatus_updates t v m e s) = imagesGenerated s"
  "imagesRequested (scanStatus_updates t v m e s) = imagesRequested s"
  "totalDishes (scanStatus_updates t v m e s) = totalDishes s"
  "actualCostUsd (scanStatus_updates t v m e s) = actualCostUsd s"
  "estimatedCostUsd (scanStatus_updates t v m e s) = estimatedCostUsd s"
  "imageUrl (scanStatus_updates t v m e s) = imageUrl s"
  by (simp_all add: scanStatus_updates_def Let_def split: option.splits)

lemma scanProgress_updates_fields [simp]:
  "status (scanProgress_updates r a1 a2 a3 a4 a5 a6 a7 s) = status s"
  "statusMessage (scanProgress_updates r a1 a2 a3 a4 a5 a6 a7 s) = statusMessage s"
  "imageUrl (scanProgress_updates r a1 a2 a3 a4 a5 a6 a7 s) = imageUrl s"
  "imagesGenerated (scanProgress_updates r a1 a2 a3 a4 a5 a6 a7 s) =
     (case a3 of None \<Rightarrow> imagesGenerated s | Some v \<Rightarrow> v)"
  "imagesRequested (scanProgress_updates r a1 a2 a3 a4 a5 a6 a7 s) =
     (case a4 of None \<Rightarrow> imagesRequested s | Some v \<Rightarrow> v)"
  "totalDishes (scanProgress_updates r a1 a2 a3 a4 a5 a6 a7 s) =
     (case a1 of None \<Rightarrow> totalDishes s | Some v \<Rightarrow> v)"
  by (simp_all add: scanProgress_updates_def Let_def split: option.splits)

lemma runMutation_updateScanStatus:
  "runMutation (updateScanStatus sid v m e) c =
     (case menuScans (db c) sid of
        None \<Rightarrow> (c, Inl db_missing)
      | Some s \<Rightarrow>
          (c\<lparr>db := (db c)\<lparr>menuScans := (menuScans (db c))(sid \<mapsto>
                   scanStatus_updates (now (db c)) v m e s)\<rparr>,
             committed := committed c @
               [(db c)\<lparr>menuScans := (menuScans (db c))(sid \<mapsto>
                   scanStatus_updates (now (db c)) v m e s)\<rparr>]\<rparr>, Inr ()))"
  by (simp add: runMutation_def updateScanStatus_def patch_scan_def split: option.splits)

lemma runMutation_updateScanProgress:
  "runMutation (updateScanProgress sid a1 a2 a3 a4 a5 a6 a7) c =
     (case menuScans (db c) sid of
        None \<Rightarrow> (c, Inl (Error ''Scan not found''))
      | Some s \<Rightarrow>
          (c\<lparr>db := (db c)\<lparr>menuScans := (menuScans (db c))(sid \<mapsto>
                   scanProgress_updates s a1 a2 a3 a4 a5 a6 a7 s)\<rparr>,
             committed := committed c @
               [(db c)\<lparr>menuScans := (menuScans (db c))(sid \<mapsto>
                   scanProgress_updates s a1 a2 a3 a4 a5 a6 a7 s)\<rparr>]\<rparr>, Inr ()))"
  by (simp add: runMutation_def updateScanProgress_def patch_scan_def split: option.splits)

lemma status_trace_append: "status_trace sid (xs @ ys) = status_trace sid xs @ status_trace sid ys"
  by (simp add: status_trace_def map_filter_def)

lemma status_trace_Cons:
  "status_trace sid (st # sts) =
     (case menuScans st sid of None \<Rightarrow> status_trace sid sts | Some s \<Rightarrow> status s # status_trace sid sts)"
  by (simp add: status_trace_def List.map_filter_simps split: option.splits)

lemma status_trace_Nil [simp]: "status_trace sid [] = []"
  by (simp add: status_trace_def List.map_filter_simps)


section \<open>A run of the pipeline\<close>

lemma processScanPipeline_try_success:
  assumes "menuScans (db c) sid = Some s" and "imageUrl s = Some url" and "url \<noteq> []"
    and "callVisionAPI url = Inr menuData"
  shows "processScanPipeline_try cfg callVisionAPI sid p c =
     (let N = count_dishes menuData;
          s1 = scanStatus_updates (now (db c)) Processing (Some ''Extracting menu items with AI...'') None s;
          s2 = scanStatus_updates (now (db c)) Extracting (Some ''Creating dish records...'') None s1;
          s3 = scanProgress_updates s2 (Some N) None None None (vm_restaurantName menuData)
                 (Some (VISION_PARSE (COSTS cfg))) None s2;
          nd = new_dishes cfg sid (now (db c)) (nextId (db c)) 0 (flatten_menu menuData);
          queuedIds = map dish_id (filter (\<lambda>d. imageStatus d = IQueued) nd);
          R = min N (AUTO_IMAGE_LIMIT cfg);
          s4 = scanProgress_updates s3 None (Some N) None (Some R) None None
                 (Some (real_of_int R * (if p = ''openai'' then IMAGE_OPENAI (COSTS cfg)
                                         else IMAGE_NANO_BANANA (COSTS cfg)))) s3;
          s5 = scanStatus_updates (now (db c)) Generating
                 (Some (''Generating images for '' @ show_int R @ '' dishes...'')) None s4;
          s6 = scanStatus_updates (now (db c)) Completed (Some ''Menu processed successfully!'') None s5;
          st = (\<lambda>x. (db c)\<lparr>menuScans := (menuScans (db c))(sid \<mapsto> x)\<rparr>);
          stn = (\<lambda>x. (insert_dishes (db c) nd)\<lparr>menuScans := (menuScans (db c))(sid \<mapsto> x)\<rparr>);
          sched = scheduled c @ map (\<lambda>i. Job_generateDishImage i sid p) queuedIds
      in if queuedIds = []
         then (c\<lparr>db := stn s6,
                 committed := committed c @ [st s1, st s2, st s3] @ insert_commits (st s3) nd @
                    [stn s4, stn s5, stn s6],
                 scheduled := sched\<rparr>, Inr ())
         else (c\<lparr>db := stn s5,
                 committed := committed c @ [st s1, st s2, st s3] @ insert_commits (st s3) nd @
                    [stn s4, stn s5],
                 scheduled := sched\<rparr>, Inr ()))"
proof -
  have fl: "new_dishes cfg sid t i 0
              (concat (map (\<lambda>sec. map (Pair (Some (section_name sec))) (items sec)) (sections menuData))) @
            (case itemsFallback menuData of
               None \<Rightarrow> []
             | Some fb \<Rightarrow> new_dishes cfg sid t
                 (i + length (concat (map (\<lambda>sec. map (Pair (Some (section_name sec))) (items sec)) (sections menuData))))
                 (int (length (concat (map (\<lambda>sec. map (Pair (Some (section_name sec))) (items sec)) (sections menuData)))))
                 (map (Pair None) fb)) =
            new_dishes cfg sid t i 0 (flatten_menu menuData)" for t i
    by (simp add: flatten_menu_def new_dishes_append split: option.splits)
  show ?thesis
  proof (cases "itemsFallback menuData")
    case None
    have f: "flatten_menu menuData =
       concat (map (\<lambda>sec. map (Pair (Some (section_name sec))) (items sec)) (sections menuData))"
      by (simp add: flatten_menu_def None)
    show ?thesis
      using assms None
      apply (simp add: processScanPipeline_try_def processScanPipeline_steps_def getScan_def bindA_def throwA_def returnA_def
        runMutation_updateScanStatus runMutation_updateScanProgress create_sections_result
        create_items_result schedule_images_result Let_def f count_dishes_flatten
        insert_dishes_menuScans_update)
      done
  next
    case (Some fb)
    have f: "flatten_menu menuData =
       concat (map (\<lambda>sec. map (Pair (Some (section_name sec))) (items sec)) (sections menuData)) @
       map (Pair None) fb"
      by (simp add: flatten_menu_def Some)
    show ?thesis
      using assms Some
      apply (simp add: processScanPipeline_try_def processScanPipeline_steps_def getScan_def bindA_def throwA_def returnA_def
        runMutation_updateScanStatus runMutation_updateScanProgress create_sections_result
        create_items_result schedule_images_result Let_def f count_dishes_flatten new_dishes_append
        insert_dishes_menuScans_update insert_dishes_twice insert_commits_append)
      done
  qed
qed


lemma queued_new_dishes:
  "length (filter (\<lambda>d. imageStatus d = IQueued) (new_dishes cfg sid t i ord xs)) =
     nat (min (int (length xs)) (AUTO_IMAGE_LIMIT cfg - ord))"
proof (induction xs arbitrary: i ord)
  case Nil
  then show ?case by simp
next
  case (Cons x xs)
  obtain sec item where x: "x = (sec, item)" by (cases x)
  show ?case
    by (simp add: x Cons.IH new_dish_def) linarith
qed

lemma status_trace_pipeline:
  assumes "status s3 = Extracting"
  shows "status_trace sid (insert_commits (st\<lparr>menuScans := (menuScans st)(sid \<mapsto> s3)\<rparr>) nd) =
           replicate (length nd) Extracting"
  using status_trace_insert_commits [of "st\<lparr>menuScans := (menuScans st)(sid \<mapsto> s3)\<rparr>" sid s3 nd] assms
  by simp

lemma processScanPipeline_success_trace:
  assumes "menuScans (db c) sid = Some s" and "imageUrl s = Some url" and "url \<noteq> []"
    and "callVisionAPI url = Inr menuData"
  shows "status_trace sid (drop (length (committed c))
           (committed (fst (processScanPipeline cfg callVisionAPI sid p c)))) =
         Processing # replicate (length (flatten_menu menuData) + 3) Extracting @
         Generating #
         (if filter (\<lambda>d. imageStatus d = IQueued)
               (new_dishes cfg sid (now (db c)) (nextId (db c)) 0 (flatten_menu menuData)) = []
          then [Completed] else [])"
proof -
  let ?nd = "new_dishes cfg sid (now (db c)) (nextId (db c)) 0 (flatten_menu menuData)"
  have t: "status_trace sid (insert_commits ((db c)\<lparr>menuScans := (menuScans (db c))(sid \<mapsto> s3)\<rparr>) ?nd)
             = replicate (length ?nd) Extracting" if "status s3 = Extracting" for s3
    using that by (rule status_trace_pipeline)
  have r: "replicate n Extracting @ [Extracting, Generating] = replicate (Suc n) Extracting @ [Generating]"
          "replicate n Extracting @ [Extracting, Generating, Completed] =
             replicate (Suc n) Extracting @ [Generating, Completed]" for n
    by (simp_all add: replicate_app_Cons_same)
  have r3: "replicate (n + 3) Extracting =
              Extracting # Extracting # Extracting # replicate n Extracting" for n
    by (simp add: numeral_3_eq_3)
  show ?thesis
    by (simp add: processScanPipeline_def tryCatch_def
        processScanPipeline_try_success [where callVisionAPI = callVisionAPI and url = url, OF assms]
        Let_def status_trace_append status_trace_Cons t r r3)
qed

section \<open>The dishes and the statuses of a successful extraction\<close>

text \<open>
  Claim C5, as amended. After a successful extraction of N dishes the pipeline has
  created them in the order of the menu with the display orders 0, 1, ..., N - 1, a
  dish being \<open>queued\<close> when its display order is below \<open>AUTO_IMAGE_LIMIT\<close> and
  \<open>pending\<close> otherwise; \<open>imagesRequested\<close> is min(N, AUTO_IMAGE_LIMIT), which is the
  number of queued dishes when it is not negative, and one worker job is scheduled
  for each queued dish. The statuses the scan goes through are \<open>processing\<close>,
  \<open>extracting\<close>, \<open>generating\<close> and, when no dish was queued, \<open>completed\<close>: the claim
  says that such a scan becomes \<open>completed\<close> without passing through \<open>generating\<close>,
  but the pipeline always writes \<open>generating\<close> first.
\<close>

theorem processScanPipeline_dishes:
  assumes "menuScans (db c) sid = Some s" and "imageUrl s = Some url" and "url \<noteq> []"
    and "callVisionAPI url = Inr menuData"
  shows "let c' = fst (processScanPipeline cfg callVisionAPI sid p c);
             N = count_dishes menuData;
             nd = new_dishes cfg sid (now (db c)) (nextId (db c)) 0 (flatten_menu menuData);
             queuedIds = map dish_id (filter (\<lambda>d. imageStatus d = IQueued) nd)
         in snd (processScanPipeline cfg callVisionAPI sid p c) = Inr () \<and>
            dishes (db c') = dishes (db c) @ nd \<and>
            int (length nd) = N \<and>
            map displayOrder nd = map int [0..<length nd] \<and>
            (\<forall>d\<in>set nd. imageStatus d =
               (if displayOrder d < AUTO_IMAGE_LIMIT cfg then IQueued else IPending)) \<and>
            length queuedIds = nat (min N (AUTO_IMAGE_LIMIT cfg)) \<and>
            map_option imagesRequested (menuScans (db c') sid) = Some (min N (AUTO_IMAGE_LIMIT cfg)) \<and>
            scheduled c' = scheduled c @ map (\<lambda>i. Job_generateDishImage i sid p) queuedIds \<and>
            status_trace sid (drop (length (committed c)) (committed c')) =
              Processing # replicate (length nd + 3) Extracting @
              Generating # (if queuedIds = [] then [Completed] else []) \<and>
            map_option status (menuScans (db c') sid) =
              Some (if queuedIds = [] then Completed else Generating)"
proof -
  let ?nd = "new_dishes cfg sid (now (db c)) (nextId (db c)) 0 (flatten_menu menuData)"
  have a: "int (length ?nd) = count_dishes menuData"
    by (simp add: count_dishes_flatten)
  have b: "map displayOrder ?nd = map int [0..<length ?nd]"
    by (simp add: displayOrder_new_dishes)
  have d: "\<forall>d\<in>set ?nd. imageStatus d =
             (if displayOrder d < AUTO_IMAGE_LIMIT cfg then IQueued else IPending)"
    using imageStatus_new_dishes by blast
  have e: "length (map dish_id (filter (\<lambda>d. imageStatus d = IQueued) ?nd)) =
             nat (min (count_dishes menuData) (AUTO_IMAGE_LIMIT cfg))"
    by (simp add: queued_new_dishes count_dishes_flatten)
  have t: "status_trace sid (drop (length (committed c))
               (committed (fst (processScanPipeline cfg callVisionAPI sid p c)))) =
           Processing # replicate (length ?nd + 3) Extracting @
           Generating #
           (if map dish_id (filter (\<lambda>d. imageStatus d = IQueued) ?nd) = [] then [Completed] else [])"
    using processScanPipeline_success_trace [where callVisionAPI = callVisionAPI and url = url, OF assms]
    by simp
  show ?thesis
    unfolding Let_def
    apply (intro conjI)
             apply (simp_all only: a b e t)
          apply (simp_all add: d processScanPipeline_def tryCatch_def
        processScanPipeline_try_success [where callVisionAPI = callVisionAPI and url = url, OF assms]
        Let_def)
    done
qed



theorem processScanPipeline_dishes_witness:
  "menuScans (db ctx_processing_example) 0 = Some scan_processing_example \<and>
   imageUrl scan_processing_example = Some ''http://img'' \<and>
   AUTO_IMAGE_LIMIT config_auto2 = 2 \<and>
   (let c' = fst (processScanPipeline config_auto2 (\<lambda>_. Inr menu_example) 0 ''openai''
                    ctx_processing_example) in
    map (\<lambda>d. (name d, displayOrder d, imageStatus d)) (dishes (db c')) =
      [(''Soup'', 0, IQueued), (''Pie'', 1, IQueued), (''Tea'', 2, IPending)] \<and>
    map_option imagesRequested (menuScans (db c') 0) = Some 2 \<and>
    scheduled c' = [Job_generateDishImage 1 0 ''openai'', Job_generateDishImage 2 0 ''openai''] \<and>
    status_trace 0 (committed c') =
      [Processing, Extracting, Extracting, Extracting, Extracting, Extracting, Extracting,
       Generating] \<and>
    map_option status (menuScans (db c') 0) = Some Generating)"
proof -
  have h1: "menuScans (db ctx_processing_example) 0 = Some scan_processing_example"
    by (simp add: ctx_processing_example_def)
  have h2: "imageUrl scan_processing_example = Some ''http://img''"
    by (simp add: scan_processing_example_def)
  have h3: "''http://img'' \<noteq> []" by simp
  have h4: "(\<lambda>_. Inr menu_example) ''http://img'' = (Inr menu_example :: js_error + VisionMenuOutput)"
    by simp
  have nd: "new_dishes config_auto2 0 (now (db ctx_processing_example))
              (nextId (db ctx_processing_example)) 0 (flatten_menu menu_example) =
            [new_dish config_auto2 0 2000 1 0 (Some ''Mains'')
               \<lparr>item_name = ''Soup'', item_description = None, item_price = None\<rparr>,
             new_dish config_auto2 0 2000 2 1 (Some ''Mains'')
               \<lparr>item_name = ''Pie'', item_description = Some ''apple'', item_price = Some ''$4''\<rparr>,
             new_dish config_auto2 0 2000 3 2 None
               \<lparr>item_name = ''Tea'', item_description = None, item_price = None\<rparr>]"
    by (simp add: flatten_menu_def menu_example_def ctx_processing_example_def
        numeral_2_eq_2 numeral_3_eq_3)
  have n: "count_dishes menu_example = 3"
    by (simp add: count_dishes_def menu_example_def)
  have a: "AUTO_IMAGE_LIMIT config_auto2 = 2"
    by (simp add: config_auto2_def)
  have e: "dishes (db ctx_processing_example) = []" "scheduled ctx_processing_example = []"
    "committed ctx_processing_example = []"
    by (simp_all add: ctx_processing_example_def)
  show ?thesis
    using processScanPipeline_dishes [where callVisionAPI = "\<lambda>_. Inr menu_example"
        and url = "''http://img''" and cfg = config_auto2 and p = "''openai''", OF h1 h2 h3 h4] h1 h2
    unfolding Let_def nd n a e
    by (simp add: new_dish_def a numeral_3_eq_3 del: map_option_eq_Some)
qed

text \<open>
  The counterexample to claim C5 as stated: with \<open>AUTO_IMAGE_LIMIT = 0\<close> and a menu
  of three dishes, all dishes are \<open>pending\<close>, nothing is scheduled, and the scan is
  \<open>generating\<close> before it is \<open>completed\<close>.
\<close>

theorem processScanPipeline_generating_counterexample:
  "AUTO_IMAGE_LIMIT CONFIG = 0 \<and>
   map imageStatus (dishes (db (fst (processScanPipeline CONFIG (\<lambda>_. Inr menu_example) 0 ''openai''
      ctx_processing_example)))) = [IPending, IPending, IPending] \<and>
   scheduled (fst (processScanPipeline CONFIG (\<lambda>_. Inr menu_example) 0 ''openai''
      ctx_processing_example)) = [] \<and>
   status_trace 0 (committed (fst (processScanPipeline CONFIG (\<lambda>_. Inr menu_example) 0 ''openai''
      ctx_processing_example))) =
     [Processing, Extracting, Extracting, Extracting, Extracting, Extracting, Extracting,
      Generating, Completed]"
proof -
  have h1: "menuScans (db ctx_processing_example) 0 = Some scan_processing_example"
    by (simp add: ctx_processing_example_def)
  have h2: "imageUrl scan_processing_example = Some ''http://img''"
    by (simp add: scan_processing_example_def)
  have h3: "''http://img'' \<noteq> []" by simp
  have h4: "(\<lambda>_. Inr menu_example) ''http://img'' = (Inr menu_example :: js_error + VisionMenuOutput)"
    by simp
  have a: "AUTO_IMAGE_LIMIT CONFIG = 0"
    by (simp add: CONFIG_def)
  have nd: "new_dishes CONFIG 0 (now (db ctx_processing_example))
              (nextId (db ctx_processing_example)) 0 (flatten_menu menu_example) =
            [new_dish CONFIG 0 2000 1 0 (Some ''Mains'')
               \<lparr>item_name = ''Soup'', item_description = None, item_price = None\<rparr>,
             new_dish CONFIG 0 2000 2 1 (Some ''Mains'')
               \<lparr>item_name = ''Pie'', item_description = Some ''apple'', item_price = Some ''$4''\<rparr>,
             new_dish CONFIG 0 2000 3 2 None
               \<lparr>item_name = ''Tea'', item_description = None, item_price = None\<rparr>]"
    by (simp add: flatten_menu_def menu_example_def ctx_processing_example_def
        numeral_2_eq_2 numeral_3_eq_3)
  have q: "filter (\<lambda>d. imageStatus d = IQueued)
             (new_dishes CONFIG 0 (now (db ctx_processing_example))
                (nextId (db ctx_processing_example)) 0 (flatten_menu menu_example)) = []"
    unfolding nd by (simp add: new_dish_def a)
  have l: "length (flatten_menu menu_example) = 3"
    by (simp add: flatten_menu_def menu_example_def)
  have e: "dishes (db ctx_processing_example) = []" "scheduled ctx_processing_example = []"
    "committed ctx_processing_example = []"
    by (simp_all add: ctx_processing_example_def)
  have t: "status_trace 0 (committed (fst (processScanPipeline CONFIG (\<lambda>_. Inr menu_example) 0
             ''openai'' ctx_processing_example))) =
           [Processing, Extracting, Extracting, Extracting, Extracting, Extracting, Extracting,
            Generating, Completed]"
    using processScanPipeline_success_trace [where callVisionAPI = "\<lambda>_. Inr menu_example"
        and url = "''http://img''" and cfg = CONFIG and p = "''openai''", OF h1 h2 h3 h4]
    unfolding q l e by (simp add: numeral_3_eq_3)
  have r: "fst (processScanPipeline CONFIG (\<lambda>_. Inr menu_example) 0 ''openai'' ctx_processing_example) =
           fst (processScanPipeline_try CONFIG (\<lambda>_. Inr menu_example) 0 ''openai'' ctx_processing_example)"
    by (simp add: processScanPipeline_def tryCatch_def
        processScanPipeline_try_success [where callVisionAPI = "\<lambda>_. Inr menu_example"
          and url = "''http://img''", OF h1 h2 h3 h4] Let_def)
  have d: "map imageStatus (dishes (db (fst (processScanPipeline_try CONFIG (\<lambda>_. Inr menu_example) 0
             ''openai'' ctx_processing_example)))) = [IPending, IPending, IPending]"
    and sc: "scheduled (fst (processScanPipeline_try CONFIG (\<lambda>_. Inr menu_example) 0
             ''openai'' ctx_processing_example)) = []"
    unfolding processScanPipeline_try_success [where callVisionAPI = "\<lambda>_. Inr menu_example"
          and url = "''http://img''", OF h1 h2 h3 h4] Let_def q
    by (simp_all add: nd e new_dish_def a)
  show ?thesis
    using a t d sc unfolding r by simp
qed

section \<open>Facts about the queueing mutations\<close>

lemma queue_loop_result:
  assumes "dish_id ` set ds \<subseteq> dish_id ` set (dishes st)"
  shows "queue_loop st ds k =
           Inr (st\<lparr>dishes := mark_status IQueued (dish_id ` set ds) (dishes st)\<rparr>,
                k + int (length ds))"
  using assms
proof (induction ds arbitrary: st k)
  case Nil
  then show ?case by simp
next
  case (Cons d ds)
  let ?st' = "st\<lparr>dishes := mark_status IQueued {dish_id d} (dishes st)\<rparr>"
  have p: "patch_dish st (dish_id d) (\<lambda>x. x\<lparr>imageStatus := IQueued\<rparr>) = Inr ?st'"
    using Cons.prems by (intro patch_dish_status) auto
  have ids: "dish_id ` set ds \<subseteq> dish_id ` set (dishes ?st')"
    using Cons.prems by (simp flip: set_map)
  have X: "dish_id ` set (d # ds) = {dish_id d} \<union> dish_id ` set ds"
    by auto
  show ?case
    by (simp add: p Cons.IH [OF ids] mark_status_twice X del: set_simps image_insert)
qed

lemma queueRemainingImages_result:
  assumes "menuScans st sid = Some s"
  shows "queueRemainingImages cfg sid st =
     (let pd = filter (\<lambda>d. imageStatus d = IPending \<or> imageStatus d = ISkipped) (by_scanId st sid);
          toQueue = min (int (length pd)) (MAX_IMAGES_PER_SCAN cfg - imagesRequested s);
          queued = int (length (take (nat toQueue) pd))
      in if toQueue = 0
         then Inr (st, \<lparr>qr_queued = 0, qr_dishIds = None, qr_message = ''Max images per scan reached''\<rparr>)
         else Inr (st\<lparr>dishes := mark_status IQueued (dish_id ` set (take (nat toQueue) pd)) (dishes st),
                      menuScans := (menuScans st)(sid \<mapsto>
                        s\<lparr>imagesRequested := imagesRequested s + queued,
                          estimatedCostUsd := estimatedCostUsd s +
                            real_of_int queued * IMAGE_OPENAI (COSTS cfg),
                          status := Generating\<rparr>)\<rparr>,
                   \<lparr>qr_queued = queued, qr_dishIds = Some (map dish_id (slice0 pd toQueue)),
                    qr_message = ''Queued '' @ show_int queued @ '' images for generation''\<rparr>))"
proof -
  let ?pd = "filter (\<lambda>d. imageStatus d = IPending \<or> imageStatus d = ISkipped) (by_scanId st sid)"
  have ids: "dish_id ` set (take n ?pd) \<subseteq> dish_id ` set (dishes st)" for n
    using by_scanId_ids [of st sid] by (auto dest!: in_set_takeD)
  show ?thesis
    using assms
    by (simp add: queueRemainingImages_def Let_def queue_loop_result [OF ids] patch_scan_def)
qed




section \<open>Queueing at the ceiling, one call after the other\<close>

text \<open>
  On a scan that is one below \<open>MAX_IMAGES_PER_SCAN\<close> and has a dish to queue, a call
  of \<open>queueRemainingImages\<close> queues one dish and brings \<open>imagesRequested\<close> to the
  ceiling, and a second call after it queues none and writes nothing. That two calls
  made at the same time behave as two calls made one after the other is the
  transaction guarantee of the database; it is not a property of this code.
\<close>

lemma queueRemainingImages_one_slot:
  assumes "menuScans st sid = Some s"
    and "imagesRequested s = MAX_IMAGES_PER_SCAN cfg - 1"
    and "filter (\<lambda>d. imageStatus d = IPending \<or> imageStatus d = ISkipped) (by_scanId st sid) \<noteq> []"
  shows "case queueRemainingImages cfg sid st of
           Inl e \<Rightarrow> False
         | Inr (st1, r1) \<Rightarrow>
             qr_queued r1 = 1 \<and>
             map_option imagesRequested (menuScans st1 sid) = Some (MAX_IMAGES_PER_SCAN cfg) \<and>
             (case queueRemainingImages cfg sid st1 of
                Inl e \<Rightarrow> False
              | Inr (st2, r2) \<Rightarrow> qr_queued r2 = 0 \<and> st2 = st1)"
proof -
  let ?pd = "filter (\<lambda>d. imageStatus d = IPending \<or> imageStatus d = ISkipped) (by_scanId st sid)"
  have l: "1 \<le> int (length ?pd)"
    using assms(3) by (cases ?pd) simp_all
  then have t: "min (int (length ?pd)) (MAX_IMAGES_PER_SCAN cfg - imagesRequested s) = 1"
    using assms(2) by simp
  have k: "int (length (take (nat 1) ?pd)) = 1"
    using l by simp
  obtain st1 r1 where q1: "queueRemainingImages cfg sid st = Inr (st1, r1)"
    and r1: "qr_queued r1 = 1"
    and s1: "menuScans st1 sid = Some (s\<lparr>imagesRequested := MAX_IMAGES_PER_SCAN cfg,
               estimatedCostUsd := estimatedCostUsd s + IMAGE_OPENAI (COSTS cfg),
               status := Generating\<rparr>)"
    unfolding queueRemainingImages_result [OF assms(1)] Let_def t
    using k assms(2) by simp
  have t2: "min (int (length (filter (\<lambda>d. imageStatus d = IPending \<or> imageStatus d = ISkipped)
              (by_scanId st1 sid)))) (MAX_IMAGES_PER_SCAN cfg - MAX_IMAGES_PER_SCAN cfg) = 0"
    by simp
  have q2: "queueRemainingImages cfg sid st1 =
              Inr (st1, \<lparr>qr_queued = 0, qr_dishIds = None,
                         qr_message = ''Max images per scan reached''\<rparr>)"
    unfolding queueRemainingImages_result [OF s1] Let_def using t2 by simp
  show ?thesis
    by (simp add: q1 r1 s1 q2)
qed

section \<open>The statuses of a submission and its pipeline\<close>








section \<open>Actions that preserve a property of the store\<close>

lemma holds_after_refl: "P (db c) \<Longrightarrow> holds_after P c c"
  by (simp add: holds_after_def)

lemma holds_after_trans:
  "holds_after P c c' \<Longrightarrow> holds_after P c' c'' \<Longrightarrow> holds_after P c c''"
  by (auto simp: holds_after_def)

lemma preservesI: "(\<And>c. P (db c) \<Longrightarrow> holds_after P c (fst (a c))) \<Longrightarrow> preserves P a"
  by (simp add: preserves_def)

lemma preservesD: "preserves P a \<Longrightarrow> P (db c) \<Longrightarrow> holds_after P c (fst (a c))"
  by (simp add: preserves_def)

lemma preserves_returnA [simp]: "preserves P (returnA x)"
  by (simp add: preserves_def returnA_def holds_after_def)

lemma preserves_throwA [simp]: "preserves P (throwA e)"
  by (simp add: preserves_def throwA_def holds_after_def)

lemma preserves_runAfter [simp]: "preserves P (runAfter j)"
  by (simp add: preserves_def runAfter_def holds_after_def)

lemma holds_after_bindA:
  assumes "holds_after P c (fst (m c))" and "\<And>x. preserves P (f x)"
  shows "holds_after P c (fst (bindA m f c))"
proof (cases "m c")
  case (Pair c' r)
  have c': "holds_after P c c'"
    using assms(1) Pair by simp
  then have "P (db c')" by (simp add: holds_after_def)
  from preservesD [OF assms(2) this] c' show ?thesis
    by (cases r) (auto simp: bindA_def Pair intro: holds_after_trans)
qed

lemma preserves_bindA:
  assumes "preserves P m" and "\<And>x. preserves P (f x)"
  shows "preserves P (bindA m f)"
  using assms by (auto intro!: preservesI holds_after_bindA dest: preservesD)

lemma preserves_tryCatch:
  assumes "preserves P m" and "\<And>e. preserves P (h e)"
  shows "preserves P (tryCatch m h)"
proof (rule preservesI)
  fix c :: ctx assume c: "P (db c)"
  show "holds_after P c (fst (tryCatch m h c))"
  proof (cases "m c")
    case (Pair c' r)
    have c': "holds_after P c c'"
      using preservesD [OF assms(1) c] Pair by simp
    then have "P (db c')" by (simp add: holds_after_def)
    from preservesD [OF assms(2) this] c' show ?thesis
      by (cases r) (auto simp: tryCatch_def Pair intro: holds_after_trans)
  qed
qed

lemma holds_after_runMutation:
  assumes "P (db c)" and "\<And>st' r. m (db c) = Inr (st', r) \<Longrightarrow> P st'"
  shows "holds_after P c (fst (runMutation m c))"
proof (cases "m (db c)")
  case (Inl e)
  then show ?thesis using assms(1) by (simp add: runMutation_def holds_after_def)
next
  case (Inr x)
  obtain st' r where x: "x = (st', r)" by (cases x)
  have "P st'" using assms(2) Inr x by simp
  then show ?thesis by (simp add: runMutation_def Inr x holds_after_def)
qed

lemma preserves_runMutation:
  assumes "\<And>st st' r. P st \<Longrightarrow> m st = Inr (st', r) \<Longrightarrow> P st'"
  shows "preserves P (runMutation m)"
  using assms by (auto intro!: preservesI holds_after_runMutation)

lemma preserves_schedule_images [simp]: "preserves P (schedule_images ids sid p)"
  by (simp add: preserves_def schedule_images_result holds_after_def)

lemma insert_commits_pres:
  assumes "\<And>st ds. P st \<Longrightarrow> P (insert_dishes st ds)"
  shows "P st0 \<Longrightarrow> st \<in> set (insert_commits st0 ds) \<Longrightarrow> P st"
proof (induction ds arbitrary: st0)
  case Nil
  then show ?case by simp
next
  case (Cons d ds)
  then show ?case using assms by auto
qed

lemma preserves_create_sections:
  assumes "\<And>st ds. P st \<Longrightarrow> P (insert_dishes st ds)"
  shows "preserves P (create_sections cfg sid secs acc)"
proof -
  obtain ord ids where acc: "acc = (ord, ids)" by (cases acc)
  show ?thesis
    using assms insert_commits_pres [of P, OF assms]
    by (auto simp: preserves_def acc create_sections_result holds_after_def Let_def)
qed

lemma preserves_create_items:
  assumes "\<And>st ds. P st \<Longrightarrow> P (insert_dishes st ds)"
  shows "preserves P (create_items cfg sid sec its acc)"
proof -
  obtain ord ids where acc: "acc = (ord, ids)" by (cases acc)
  show ?thesis
    using assms insert_commits_pres [of P, OF assms]
    by (auto simp: preserves_def acc create_items_result holds_after_def Let_def)
qed

lemma preserves_callImageAPI [simp]: "preserves P (callImageAPI cfg env n t provider)"
  by (auto simp: preserves_def callImageAPI_def holds_after_def split: sum.splits)

section \<open>The worker preserves what its mutations preserve\<close>

lemma preserves_worker_tail:
  assumes G: "\<And>st s st' r. P st \<Longrightarrow> menuScans st sid = Some s \<Longrightarrow>
                updateScanProgress sid None None (Some (imagesGenerated s + 1)) None None k None st
                  = Inr (st', r) \<Longrightarrow> P st'"
    and C: "\<And>st st' r. P st \<Longrightarrow> updateScanStatus sid Completed (Some msg) None st = Inr (st', r)
                \<Longrightarrow> P st'"
  shows "preserves P (\<lambda>c3. case getScan (db c3) sid of
            None \<Rightarrow> returnA () c3
          | Some (scan, _) \<Rightarrow>
              (let newImagesGenerated = imagesGenerated scan + 1
               in bindA (runMutation (updateScanProgress sid None None
                           (Some newImagesGenerated) None None k None))
                  (\<lambda>_. if newImagesGenerated \<ge> imagesRequested scan
                        then runMutation (updateScanStatus sid Completed (Some msg) None)
                        else returnA ()) c3))"
proof (rule preservesI)
  fix c :: ctx assume c: "P (db c)"
  show "holds_after P c (fst (case getScan (db c) sid of
            None \<Rightarrow> returnA () c
          | Some (scan, _) \<Rightarrow>
              (let newImagesGenerated = imagesGenerated scan + 1
               in bindA (runMutation (updateScanProgress sid None None
                           (Some newImagesGenerated) None None k None))
                  (\<lambda>_. if newImagesGenerated \<ge> imagesRequested scan
                        then runMutation (updateScanStatus sid Completed (Some msg) None)
                        else returnA ()) c)))"
  proof (cases "menuScans (db c) sid")
    case None
    then show ?thesis using c by (simp add: getScan_def returnA_def holds_after_def)
  next
    case (Some s)
    have 1: "holds_after P c (fst (runMutation (updateScanProgress sid None None
               (Some (imagesGenerated s + 1)) None None k None) c))"
      using c G [OF c Some] by (intro holds_after_runMutation)
    have 2: "preserves P (if imagesGenerated s + 1 \<ge> imagesRequested s
                          then runMutation (updateScanStatus sid Completed (Some msg) None)
                          else returnA ())"
      using C by (auto intro!: preserves_runMutation)
    show ?thesis
      using holds_after_bindA [where m = "runMutation (updateScanProgress sid None None
               (Some (imagesGenerated s + 1)) None None k None)" and c = c and P = P
          and f = "\<lambda>_. if imagesGenerated s + 1 \<ge> imagesRequested s
                          then runMutation (updateScanStatus sid Completed (Some msg) None)
                          else returnA ()", OF 1 2]
      by (simp add: getScan_def Some Let_def)
  qed
qed

lemma preserves_generateDishImage:
  assumes D: "\<And>v a1 a2 a3 a4 a5 st st' r. P st \<Longrightarrow>
                updateDishImage did v a1 a2 a3 a4 a5 st = Inr (st', r) \<Longrightarrow> P st'"
    and G: "\<And>k st s st' r. P st \<Longrightarrow> menuScans st sid = Some s \<Longrightarrow>
                updateScanProgress sid None None (Some (imagesGenerated s + 1)) None None k None st
                  = Inr (st', r) \<Longrightarrow> P st'"
    and C: "\<And>msg st st' r. P st \<Longrightarrow> updateScanStatus sid Completed (Some msg) None st = Inr (st', r)
                \<Longrightarrow> P st'"
  shows "preserves P (generateDishImage cfg env did sid provider)"
proof -
  have f: "preserves P (generateDishImage_found cfg env did sid provider dish)" for dish
    unfolding generateDishImage_found_def
    by (intro preserves_bindA preserves_runMutation)
      (auto intro!: preserves_bindA preserves_runMutation preserves_worker_tail
             intro: D G C split: sum.splits prod.splits)
  have t: "preserves P (generateDishImage_try cfg env did sid provider)"
  proof (rule preservesI)
    fix c :: ctx assume c: "P (db c)"
    show "holds_after P c (fst (generateDishImage_try cfg env did sid provider c))"
    proof (cases "find (\<lambda>d. dish_id d = did) (getDishesForScan (db c) sid)")
      case None
      then show ?thesis
        using c by (simp add: generateDishImage_try_def throwA_def holds_after_def)
    next
      case (Some dish)
      show ?thesis
        using preservesD [where a = "generateDishImage_found cfg env did sid provider dish"
            and c = c and P = P, OF f c]
        by (simp add: generateDishImage_try_def Some)
    qed
  qed
  have h: "preserves P (generateDishImage_catch did sid e)" for e
    unfolding generateDishImage_catch_def
    by (intro preserves_bindA preserves_runMutation preserves_worker_tail) (auto intro: D G C)
  show ?thesis
    unfolding generateDishImage_def by (intro preserves_tryCatch t h)
qed


section \<open>The bounds on the counters are preserved\<close>

lemma counters_ok_menuScans:
  "menuScans st' = menuScans st \<Longrightarrow> counters_ok cfg st' = counters_ok cfg st"
  by (simp add: counters_ok_def)

lemma counters_ok_update:
  assumes "counters_ok cfg st"
    and "0 \<le> imagesGenerated s'" and "0 \<le> imagesRequested s'"
    and "imagesRequested s' \<le> MAX_IMAGES_PER_SCAN cfg"
  shows "counters_ok cfg (st\<lparr>menuScans := (menuScans st)(sid \<mapsto> s')\<rparr>)"
  using assms by (simp add: counters_ok_def)

lemma counters_ok_scan:
  "counters_ok cfg st \<Longrightarrow> menuScans st sid = Some s \<Longrightarrow>
   0 \<le> imagesGenerated s \<and> 0 \<le> imagesRequested s \<and> imagesRequested s \<le> MAX_IMAGES_PER_SCAN cfg"
  by (simp add: counters_ok_def)

lemma counters_ok_dishes [simp]: "counters_ok cfg (st\<lparr>dishes := ds\<rparr>) = counters_ok cfg st"
  by (simp add: counters_ok_def)

lemma counters_ok_insert_dishes: "counters_ok cfg st \<Longrightarrow> counters_ok cfg (insert_dishes st ds)"
  by (simp add: counters_ok_def)

lemma counters_ok_updateDishImage:
  "counters_ok cfg st \<Longrightarrow> updateDishImage did v a1 a2 a3 a4 a5 st = Inr (st', r) \<Longrightarrow>
   counters_ok cfg st'"
  by (auto simp: updateDishImage_def patch_dish_def split: option.splits)

lemma counters_ok_updateScanStatus:
  "counters_ok cfg st \<Longrightarrow> updateScanStatus sid v m e st = Inr (st', r) \<Longrightarrow> counters_ok cfg st'"
  by (auto simp: updateScanStatus_def patch_scan_def split: option.splits
      intro!: counters_ok_update dest: counters_ok_scan)

lemma counters_ok_updateScanProgress:
  assumes "counters_ok cfg st"
    and "updateScanProgress sid a1 a2 a3 a4 a5 a6 a7 st = Inr (st', r)"
    and "\<And>v. a3 = Some v \<Longrightarrow> 0 \<le> v"
    and "\<And>v. a4 = Some v \<Longrightarrow> 0 \<le> v \<and> v \<le> MAX_IMAGES_PER_SCAN cfg"
  shows "counters_ok cfg st'"
proof -
  obtain s where s: "menuScans st sid = Some s"
    using assms(2) by (cases "menuScans st sid") (simp_all add: updateScanProgress_def)
  have st': "st' = st\<lparr>menuScans := (menuScans st)(sid \<mapsto> scanProgress_updates s a1 a2 a3 a4 a5 a6 a7 s)\<rparr>"
    using assms(2) by (simp add: updateScanProgress_def s patch_scan_def)
  show ?thesis
    unfolding st' using counters_ok_scan [OF assms(1) s] assms(3,4)
    by (intro counters_ok_update assms(1)) (auto split: option.splits)
qed

lemma counters_ok_update2:
  assumes "counters_ok cfg st"
    and "0 \<le> imagesGenerated s'" and "0 \<le> imagesRequested s'"
    and "imagesRequested s' \<le> MAX_IMAGES_PER_SCAN cfg"
  shows "counters_ok cfg (st\<lparr>dishes := ds, menuScans := (menuScans st)(sid \<mapsto> s')\<rparr>)"
  using assms by (simp add: counters_ok_def)

lemma counters_ok_queueSingleDishImage:
  assumes "counters_ok cfg st" and "queueSingleDishImage cfg did st = Inr (st', r)"
  shows "counters_ok cfg st'"
proof (cases "r = Single_queued did (the (map_option scanId (db_get_dish st did)))")
  case False
  then have "st' = st"
    using assms(2)
    by (auto simp: queueSingleDishImage_def patch_dish_def patch_scan_def
        split: option.splits if_splits)
  then show ?thesis using assms(1) by simp
next
  case True
  then obtain d s where d: "db_get_dish st did = Some d" and s: "menuScans st (scanId d) = Some s"
    and lt: "imagesRequested s < MAX_IMAGES_PER_SCAN cfg"
    and st': "st' = st\<lparr>dishes := map (\<lambda>x. if dish_id x = did then x\<lparr>imageStatus := IQueued\<rparr> else x)
                                   (dishes st),
                      menuScans := (menuScans st)(scanId d \<mapsto>
                        s\<lparr>imagesRequested := imagesRequested s + 1,
                          estimatedCostUsd := estimatedCostUsd s + IMAGE_OPENAI (COSTS cfg),
                          status := (if status s = Completed then Generating else status s)\<rparr>)\<rparr>"
    using assms(2)
    by (auto simp: queueSingleDishImage_def patch_dish_def patch_scan_def
        split: option.splits if_splits)
  show ?thesis
    unfolding st' using counters_ok_scan [OF assms(1) s] lt
    by (intro counters_ok_update2 assms(1)) simp_all
qed

lemma counters_ok_queueRemainingImages:
  assumes "counters_ok cfg st" and "queueRemainingImages cfg sid st = Inr (st', r)"
  shows "counters_ok cfg st'"
proof -
  obtain s where s: "menuScans st sid = Some s"
    using assms(2) by (cases "menuScans st sid") (simp_all add: queueRemainingImages_def)
  note b = counters_ok_scan [OF assms(1) s]
  let ?pd = "filter (\<lambda>d. imageStatus d = IPending \<or> imageStatus d = ISkipped) (by_scanId st sid)"
  let ?t = "min (int (length ?pd)) (MAX_IMAGES_PER_SCAN cfg - imagesRequested s)"
  show ?thesis
  proof (cases "?t = 0")
    case True
    then have "st' = st"
      using assms(2) unfolding queueRemainingImages_result [OF s] Let_def by simp
    then show ?thesis using assms(1) by simp
  next
    case False
    have q: "int (length (take (nat ?t) ?pd)) \<le> MAX_IMAGES_PER_SCAN cfg - imagesRequested s"
      using b by simp
    have st': "st' = st\<lparr>dishes := mark_status IQueued (dish_id ` set (take (nat ?t) ?pd)) (dishes st),
                      menuScans := (menuScans st)(sid \<mapsto>
                        s\<lparr>imagesRequested := imagesRequested s + int (length (take (nat ?t) ?pd)),
                          estimatedCostUsd := estimatedCostUsd s +
                            real_of_int (int (length (take (nat ?t) ?pd))) * IMAGE_OPENAI (COSTS cfg),
                          status := Generating\<rparr>)\<rparr>"
      using assms(2) False unfolding queueRemainingImages_result [OF s] Let_def by simp
    show ?thesis
      unfolding st' using b q
      by (intro counters_ok_update2 assms(1)) simp_all
  qed
qed

lemma counters_ok_stopImageGeneration:
  assumes "counters_ok cfg st" and "stopImageGeneration sid st = Inr (st', r)"
  shows "counters_ok cfg st'"
proof -
  obtain s where s: "menuScans st sid = Some s"
    using assms(2) by (cases "menuScans st sid") (simp_all add: stopImageGeneration_def)
  note b = counters_ok_scan [OF assms(1) s]
  have st': "st' = fst (projr (stopImageGeneration sid st))"
    using assms(2) by simp
  show ?thesis
    unfolding st' stopImageGeneration_result [OF s] using b
    by (simp, intro counters_ok_update2 assms(1)) (simp_all add: completed_count_def)
qed

lemma counters_ok_forceCompleteScan:
  assumes "counters_ok cfg st" and "forceCompleteScan sid st = Inr (st', r)"
  shows "counters_ok cfg st'"
proof -
  obtain s where s: "menuScans st sid = Some s"
    using assms(2) by (cases "menuScans st sid") (simp_all add: forceCompleteScan_def)
  note b = counters_ok_scan [OF assms(1) s]
  have st': "st' = fst (projr (forceCompleteScan sid st))"
    using assms(2) by simp
  show ?thesis
    unfolding st' forceCompleteScan_result [OF s] using b
    by (simp, intro counters_ok_update2 assms(1)) (simp_all add: completed_count_def)
qed


lemma count_dishes_nonneg: "0 \<le> count_dishes menuData"
  by (simp add: count_dishes_flatten)

lemma preserves_counters_startProcessingScan:
  "preserves (counters_ok cfg) (startProcessingScan cfg sid p)"
  unfolding startProcessingScan_def Let_def
  by (intro preserves_bindA preserves_runMutation preserves_runAfter preserves_returnA)
    (rule counters_ok_updateScanStatus)

lemma counters_ok_progress_plain:
  "counters_ok cfg st \<Longrightarrow> updateScanProgress sid a1 a2 None None a5 a6 a7 st = Inr (st', r) \<Longrightarrow>
   counters_ok cfg st'"
  by (erule (1) counters_ok_updateScanProgress) simp_all

lemma counters_ok_progress_requested:
  "counters_ok cfg st \<Longrightarrow> updateScanProgress sid a1 a2 None (Some v) a5 a6 a7 st = Inr (st', r) \<Longrightarrow>
   0 \<le> v \<and> v \<le> MAX_IMAGES_PER_SCAN cfg \<Longrightarrow> counters_ok cfg st'"
  by (erule (1) counters_ok_updateScanProgress) simp_all

lemma preserves_counters_mutations:
  "preserves (counters_ok cfg) (runMutation (queueRemainingImages cfg sid))"
  "preserves (counters_ok cfg) (runMutation (queueSingleDishImage cfg did))"
  "preserves (counters_ok cfg) (runMutation (stopImageGeneration sid))"
  "preserves (counters_ok cfg) (runMutation (forceCompleteScan sid))"
  by (rule preserves_runMutation, erule (1) counters_ok_queueRemainingImages
      counters_ok_queueSingleDishImage counters_ok_stopImageGeneration
      counters_ok_forceCompleteScan)+

lemma preserves_counters_steps:
  assumes "0 \<le> AUTO_IMAGE_LIMIT cfg" and "AUTO_IMAGE_LIMIT cfg \<le> MAX_IMAGES_PER_SCAN cfg"
  shows "preserves (counters_ok cfg) (processScanPipeline_steps cfg callVisionAPI sid p url)"
proof -
  have b: "0 \<le> min (count_dishes menuData) (AUTO_IMAGE_LIMIT cfg) \<and>
           min (count_dishes menuData) (AUTO_IMAGE_LIMIT cfg) \<le> MAX_IMAGES_PER_SCAN cfg" for menuData
    using assms count_dishes_nonneg [of menuData] by simp
  show ?thesis
    unfolding processScanPipeline_steps_def Let_def
    apply (intro preserves_bindA preserves_runMutation)
     apply (erule (1) counters_ok_updateScanStatus)
    apply (auto split: sum.splits option.splits prod.splits
        intro!: preserves_bindA preserves_runMutation preserves_create_sections
          preserves_create_items counters_ok_insert_dishes
        elim: counters_ok_updateScanStatus counters_ok_progress_plain
          counters_ok_progress_requested [OF _ _ b])
    done
qed

lemma preserves_counters_processScanPipeline:
  assumes "0 \<le> AUTO_IMAGE_LIMIT cfg" and "AUTO_IMAGE_LIMIT cfg \<le> MAX_IMAGES_PER_SCAN cfg"
  shows "preserves (counters_ok cfg) (processScanPipeline cfg callVisionAPI sid p)"
proof -
  have t: "preserves (counters_ok cfg) (processScanPipeline_try cfg callVisionAPI sid p)"
  proof (rule preservesI)
    fix c :: ctx assume c: "counters_ok cfg (db c)"
    show "holds_after (counters_ok cfg) c (fst (processScanPipeline_try cfg callVisionAPI sid p c))"
    proof (cases "\<exists>s url. menuScans (db c) sid = Some s \<and> imageUrl s = Some url \<and> url \<noteq> []")
      case True
      then obtain s url where s: "menuScans (db c) sid = Some s" "imageUrl s = Some url" "url \<noteq> []"
        by blast
      show ?thesis
        using preservesD [where a = "processScanPipeline_steps cfg callVisionAPI sid p url"
            and c = c and P = "counters_ok cfg", OF preserves_counters_steps [OF assms] c]
        by (simp add: processScanPipeline_try_def getScan_def s)
    next
      case False
      then have "processScanPipeline_try cfg callVisionAPI sid p c =
                   throwA (Error ''Scan or image not found'') c"
        by (auto simp: processScanPipeline_try_def getScan_def split: option.splits)
      then show ?thesis
        using c by (simp add: throwA_def holds_after_def)
    qed
  qed
  show ?thesis
    unfolding processScanPipeline_def
    by (intro preserves_tryCatch t preserves_runMutation) (rule counters_ok_updateScanStatus)
qed

lemma preserves_counters_generateDishImage:
  "preserves (counters_ok cfg) (generateDishImage cfg env did sid p)"
proof (rule preserves_generateDishImage)
  fix k st s st' r
  assume "counters_ok cfg st" and s: "menuScans st sid = Some s"
    and u: "updateScanProgress sid None None (Some (imagesGenerated s + 1)) None None k None st
              = Inr (st', r)"
  then show "counters_ok cfg st'"
    using counters_ok_scan [of cfg st sid s]
    by (intro counters_ok_updateScanProgress [OF _ u]) simp_all
qed (auto elim: counters_ok_updateDishImage counters_ok_updateScanStatus)

lemma preserves_counters_generateRemainingImages:
  "preserves (counters_ok cfg) (generateRemainingImages cfg sid p)"
  unfolding generateRemainingImages_def Let_def
  by (intro preserves_bindA preserves_runMutation)
    (auto split: option.splits intro!: preserves_bindA elim: counters_ok_queueRemainingImages)

lemma preserves_counters_generateSingleDishImage:
  "preserves (counters_ok cfg) (generateSingleDishImage cfg did p)"
  unfolding generateSingleDishImage_def Let_def
  by (intro preserves_bindA preserves_runMutation)
    (auto split: single_result.splits intro!: preserves_bindA
      elim: counters_ok_queueSingleDishImage)

lemma apply_op_counters:
  assumes "0 \<le> AUTO_IMAGE_LIMIT cfg" and "AUTO_IMAGE_LIMIT cfg \<le> MAX_IMAGES_PER_SCAN cfg"
    and "counters_ok cfg (db c)"
  shows "holds_after (counters_ok cfg) c (apply_op cfg c op)"
proof (cases op)
  case (Op_startProcessingScan sid p)
  then show ?thesis
    using preservesD [OF preserves_counters_startProcessingScan assms(3)] by simp
next
  case (Op_processScanPipeline vision sid p)
  then show ?thesis
    using preservesD [where a = "processScanPipeline cfg vision sid p",
        OF preserves_counters_processScanPipeline [OF assms(1,2)] assms(3)] by simp
next
  case (Op_generateDishImage env did sid p)
  then show ?thesis
    using preservesD [where a = "generateDishImage cfg env did sid p",
        OF preserves_counters_generateDishImage assms(3)] by simp
next
  case (Op_queueRemainingImages sid)
  then show ?thesis
    using preservesD [where a = "runMutation (queueRemainingImages cfg sid)",
        OF preserves_counters_mutations(1) assms(3)] by simp
next
  case (Op_generateRemainingImages sid p)
  then show ?thesis
    using preservesD [where a = "generateRemainingImages cfg sid p",
        OF preserves_counters_generateRemainingImages assms(3)] by simp
next
  case (Op_queueSingleDishImage did)
  then show ?thesis
    using preservesD [where a = "runMutation (queueSingleDishImage cfg did)",
        OF preserves_counters_mutations(2) assms(3)] by simp
next
  case (Op_generateSingleDishImage did p)
  then show ?thesis
    using preservesD [where a = "generateSingleDishImage cfg did p",
        OF preserves_counters_generateSingleDishImage assms(3)] by simp
next
  case (Op_stopImageGeneration sid)
  then show ?thesis
    using preservesD [where a = "runMutation (stopImageGeneration sid)",
        OF preserves_counters_mutations(3) assms(3)] by simp
next
  case (Op_forceCompleteScan sid)
  then show ?thesis
    using preservesD [where a = "runMutation (forceCompleteScan sid)",
        OF preserves_counters_mutations(4) assms(3)] by simp
qed

text \<open>
  Claim C1, as amended. The claim bounds the counters of every scan, after every
  sequence of the operations, by
  \<open>0 \<le> imagesGenerated \<le> imagesRequested \<le> min(totalDishes, MAX_IMAGES_PER_SCAN)\<close>.
  What the operations keep, for a configuration with
  \<open>0 \<le> AUTO_IMAGE_LIMIT \<le> MAX_IMAGES_PER_SCAN\<close>, is
  \<open>0 \<le> imagesGenerated\<close> and \<open>0 \<le> imagesRequested \<le> MAX_IMAGES_PER_SCAN\<close>: if these
  hold of every scan of the database, they hold of every scan after any sequence of
  the operations, in the final database and in every state committed on the way.
  \<open>imagesRequested\<close> is not bounded by \<open>totalDishes\<close>, because a dish that was skipped
  or has failed is queued, and counted, again; and \<open>imagesGenerated\<close> is not bounded
  by \<open>imagesRequested\<close> over all sequences, because a second run of the pipeline sets
  \<open>imagesRequested\<close> anew and leaves \<open>imagesGenerated\<close>.
\<close>

theorem counters_invariant:
  assumes "0 \<le> AUTO_IMAGE_LIMIT cfg" and "AUTO_IMAGE_LIMIT cfg \<le> MAX_IMAGES_PER_SCAN cfg"
    and "counters_ok cfg (db c)"
  shows "counters_ok cfg (db (run cfg c ops)) \<and>
         (\<forall>st\<in>set (committed (run cfg c ops)). st \<in> set (committed c) \<or> counters_ok cfg st)"
proof -
  have "holds_after (counters_ok cfg) c (foldl (apply_op cfg) c ops)"
    using assms(3)
  proof (induction ops arbitrary: c)
    case Nil
    then show ?case by (simp add: holds_after_refl)
  next
    case (Cons op ops)
    have 1: "holds_after (counters_ok cfg) c (apply_op cfg c op)"
      by (rule apply_op_counters [OF assms(1,2) Cons.prems])
    then have "counters_ok cfg (db (apply_op cfg c op))"
      by (simp add: holds_after_def)
    from holds_after_trans [OF 1 Cons.IH [OF this]] show ?case by simp
  qed
  then show ?thesis
    by (simp add: run_def holds_after_def)
qed

section \<open>The status after a run of the worker\<close>





section \<open>The transitions of the status\<close>


section \<open>Instances of the bounds and of the transitions\<close>

lemmas eval_defs = run_def CONFIG_def ctx_processing_example_def scan_processing_example_def
  menu_single_example_def processScanPipeline_def processScanPipeline_try_def
  processScanPipeline_steps_def tryCatch_def bindA_def returnA_def throwA_def runMutation_def
  runAfter_def getScan_def updateScanStatus_def updateScanProgress_def scanStatus_updates_def
  scanProgress_updates_def createDish_def count_dishes_def patch_scan_def patch_dish_def
  db_get_dish_def generateSingleDishImage_def queueSingleDishImage_def chooseProvider_def
  stopImageGeneration_def by_scanId_def Let_def generateDishImage_def generateDishImage_try_def
  generateDishImage_found_def generateDishImage_catch_def getDishesForScan_def
  by_scanId_order_def updateDishImage_def dishImage_updates_def callImageAPI_def env_ok_def
  startProcessingScan_def prompt_description_def

theorem counters_invariant_witness:
  "0 \<le> AUTO_IMAGE_LIMIT CONFIG \<and> AUTO_IMAGE_LIMIT CONFIG \<le> MAX_IMAGES_PER_SCAN CONFIG \<and>
   counters_ok CONFIG (db ctx_processing_example) \<and>
   committed ctx_processing_example = [] \<and>
   counters_ok CONFIG (db (run CONFIG ctx_processing_example ops_requeue_example)) \<and>
   list_all (counters_ok CONFIG) (committed (run CONFIG ctx_processing_example ops_requeue_example))"
proof -
  have h1: "0 \<le> AUTO_IMAGE_LIMIT CONFIG" and h2: "AUTO_IMAGE_LIMIT CONFIG \<le> MAX_IMAGES_PER_SCAN CONFIG"
    by (simp_all add: CONFIG_def)
  have h3: "counters_ok CONFIG (db ctx_processing_example)"
    by (simp add: counters_ok_def ctx_processing_example_def scan_processing_example_def CONFIG_def)
  have e: "committed ctx_processing_example = []"
    by (simp add: ctx_processing_example_def)
  from counters_invariant [OF h1 h2 h3, of ops_requeue_example] h1 h2 h3 e
  show ?thesis by (simp add: list_all_iff)
qed

text \<open>
  The counterexample to claim C1 as stated, on a scan that satisfies the claim's
  bounds at the start. Queueing the only dish, stopping and queueing it again gives
  \<open>imagesRequested = 2\<close> with \<open>totalDishes = 1\<close>; generating its image and starting the
  processing again gives \<open>imagesGenerated = 1\<close> with \<open>imagesRequested = 0\<close>.
\<close>

theorem counters_invariant_counterexample:
  "map_option (spec_counters_ok CONFIG) (menuScans (db ctx_processing_example) 0) = Some True \<and>
   map_option (\<lambda>s. (imagesGenerated s, imagesRequested s, totalDishes s))
     (menuScans (db (run CONFIG ctx_processing_example ops_requeue_example)) 0) = Some (0, 2, 1) \<and>
   map_option (spec_counters_ok CONFIG)
     (menuScans (db (run CONFIG ctx_processing_example ops_requeue_example)) 0) = Some False \<and>
   map_option (\<lambda>s. (imagesGenerated s, imagesRequested s, totalDishes s))
     (menuScans (db (run CONFIG ctx_processing_example ops_rerun_example)) 0) = Some (1, 0, 1) \<and>
   map_option (spec_counters_ok CONFIG)
     (menuScans (db (run CONFIG ctx_processing_example ops_rerun_example)) 0) = Some False"
proof -
  have a: "map_option (spec_counters_ok CONFIG) (menuScans (db ctx_processing_example) 0) = Some True"
    by (simp add: spec_counters_ok_def ctx_processing_example_def scan_processing_example_def
        CONFIG_def)
  have b: "map_option (\<lambda>s. (imagesGenerated s, imagesRequested s, totalDishes s))
     (menuScans (db (run CONFIG ctx_processing_example ops_requeue_example)) 0) = Some (0, 2, 1)"
    by (simp add: ops_requeue_example_def eval_defs)
  have c: "map_option (\<lambda>s. (imagesGenerated s, imagesRequested s, totalDishes s))
     (menuScans (db (run CONFIG ctx_processing_example ops_rerun_example)) 0) = Some (1, 0, 1)"
    by (simp add: ops_rerun_example_def eval_defs)
  have d: "map_option (spec_counters_ok cfg) x = Some False"
    if "map_option (\<lambda>s. (imagesGenerated s, imagesRequested s, totalDishes s)) x = Some (g, r, t)"
      and "\<not> (0 \<le> g \<and> g \<le> r \<and> r \<le> min t (MAX_IMAGES_PER_SCAN cfg))" for x cfg g r t
    using that by (cases x) (auto simp: spec_counters_ok_def)
  show ?thesis
    using a b c d [OF b] d [OF c] by simp
qed



end
